theory Spec2Isabelle
  imports Main
begin

section \<open>The Okteto extension commands (src/extension.ts)\<close>

text \<open>
  The commands of the extension talk to collaborators (the editor, the okteto CLI wrapper,
  the manifest loader, the cluster configuration reader and telemetry). The model makes
  every such call an event of a trace, in program order, and takes the collaborators'
  answers from an environment record. A JavaScript \<open>Error\<close> is identified with its
  \<open>message\<close>; a \<open>vscode.Uri\<close> with its path. A value that may be \<open>undefined\<close> or
  \<open>null\<close> is an \<open>option\<close>.

  Modelled are \<open>installCmd\<close>, \<open>upCommand\<close> with \<open>waitForUp\<close>, \<open>waitForFinalState\<close>,
  \<open>sleep\<close> and \<open>finalizeUp\<close>, \<open>downCommand\<close> with \<open>getManifestOrAsk\<close>,
  \<open>onOktetoFailed\<close> and the two pickers. \<open>activate\<close> and \<open>createCmd\<close> are not. Of the
  collaborators, \<open>okteto.install\<close>, \<open>okteto.getState\<close>, \<open>okteto.down\<close> and
  \<open>manifest.getManifest\<close> may throw, as the source expects of them with a \<open>try\<close> or
  an \<open>await\<close> inside one; the others answer.
\<close>

subsection \<open>Data\<close>

type_synonym error = string

text \<open>The telemetry events that \<open>extension.ts\<close> tracks (\<open>events.install\<close>, ...).\<close>

datatype events =
    Install | OktetoInstallFailed
  | ManifestDismissed | ManifestSelected | ManifestLoadFailed
  | UpCancelled | OktetoUpFailed | UpReady | UpFinished
  | Down | DownFinished | OktetoDownFailed

text \<open>\<open>manifest.Manifest\<close>: the two fields the commands read.\<close>

record Manifest =
  manifest_name :: string
  manifest_namespace :: "string option"

text \<open>The value \<open>okteto.getState\<close> resolves to: \<open>{state, message}\<close>.\<close>

record poll_result =
  res_state :: string
  res_message :: string

text \<open>The value \<open>waitForFinalState\<close> resolves to: \<open>{result, message}\<close>.\<close>

record final_state =
  result :: bool
  message :: string

datatype event =
    Track events
  | CaptureError string
  | ConsoleLog string
  | ConsoleError string
  | ShowErrorMessage string
  | ShowInformationMessage string
  | ShowTerminal
  | WithProgress "string option" bool
  | ProgressReport "string option"
  | FindFiles string "string option"
  | ShowQuickPick "string list"
  | ShowOpenDialog
  | UpdateWorkspaceFolders nat string string
  | ExecuteCommand string
  | SetTimeout nat
  | GetManifest string
  | OktetoInstall
  | OktetoUp string string string string
  | OktetoDown string string string
  | OktetoGetState string string
  | OktetoNotifyIfFailed string string

text \<open>
  The collaborators' answers. A call that may throw answers \<open>Inl\<close> of the error.
  \<open>okteto_getState e namespace name i\<close> is the answer to the call number \<open>i\<close>
  (counting from 0) of \<open>okteto.getState(namespace, name)\<close>. \<open>okteto_state_ready\<close> and
  \<open>okteto_state_failed\<close> are the tags \<open>okteto.state.ready\<close> and
  \<open>okteto.state.failed\<close>; \<open>okteto_getStateMessages\<close> is the table of
  \<open>okteto.getStateMessages()\<close>. \<open>showQuickPick\<close> answers with the index of the chosen
  label. \<open>cancellationRequested = Some k\<close> says that the user cancels the progress
  notification while the polling loop sleeps after its tick number \<open>k\<close> (counting from 1).
\<close>

record env =
  workspace_name :: "string option"
  workspaceFolders :: "string list option"
  asRelativePath :: "string \<Rightarrow> string"
  findFiles :: "string \<Rightarrow> string option \<Rightarrow> string list"
  showQuickPick :: "string list \<Rightarrow> nat option"
  showOpenDialog :: "string list option"
  updateWorkspaceFolders :: bool
  cancellationRequested :: "nat option"
  manifest_getManifest :: "string \<Rightarrow> error + Manifest"
  kubernetes_getKubeconfig :: string
  kubernetes_getCurrentNamespace :: "string \<Rightarrow> string option"
  okteto_needsInstall :: "bool \<times> bool"
  okteto_install :: "error + unit"
  okteto_down :: "string \<Rightarrow> string \<Rightarrow> string \<Rightarrow> error + unit"
  okteto_state_ready :: string
  okteto_state_failed :: string
  okteto_getStateMessages :: "string \<rightharpoonup> string"
  okteto_getState :: "string \<Rightarrow> string \<Rightarrow> nat \<Rightarrow> error + poll_result"

text \<open>JavaScript truthiness of a \<open>string | undefined | null\<close>.\<close>

definition truthy :: "string option \<Rightarrow> bool" where
  "truthy v = (case v of None \<Rightarrow> False | Some s \<Rightarrow> s \<noteq> [])"

text \<open>The string that a \<open>string | undefined | null\<close> value stands for where one is used.\<close>

definition string_of :: "string option \<Rightarrow> string" where
  "string_of v = (case v of None \<Rightarrow> ''undefined'' | Some s \<Rightarrow> s)"

text \<open>\<open>s.split(c)\<close> for a one-character separator.\<close>

fun split_on :: "char \<Rightarrow> string \<Rightarrow> string list" where
  "split_on c [] = [[]]"
| "split_on c (x # xs) =
     (if x = c then [] # split_on c xs
      else (case split_on c xs of [] \<Rightarrow> [[x]] | y # ys \<Rightarrow> (x # y) # ys))"

text \<open>\<open>showQuickPick(items)\<close>: the chosen item, if the user chooses one.\<close>

definition pick :: "env \<Rightarrow> (string \<times> 'a) list \<Rightarrow> (string \<times> 'a) option" where
  "pick e items =
     (case showQuickPick e (map fst items) of
        None \<Rightarrow> None
      | Some i \<Rightarrow> if i < length items then Some (items ! i) else None)"

subsection \<open>\<open>sleep\<close>, \<open>onOktetoFailed\<close>, \<open>finalizeUp\<close>\<close>

text \<open>\<open>sleep(ms)\<close> ignores its argument: the timer is always set to 1000 ms.\<close>

definition sleep :: "nat \<Rightarrow> event list" where
  "sleep ms = [SetTimeout 1000]"

definition onOktetoFailed :: "string \<Rightarrow> event list" where
  "onOktetoFailed msg = [ShowErrorMessage msg, ShowTerminal]"

definition finalizeUp :: "string \<Rightarrow> string \<Rightarrow> event list" where
  "finalizeUp namespace name =
     [Track UpReady, Track UpFinished, OktetoNotifyIfFailed namespace name,
      ShowInformationMessage ''Your development container is ready!'']"

subsection \<open>\<open>installCmd\<close>\<close>

text \<open>
  The callback given to \<open>withProgress\<close>: the \<open>try\<close>/\<open>catch\<close> around
  \<open>okteto.install()\<close>.
\<close>

definition install_task :: "env \<Rightarrow> bool \<Rightarrow> (error + unit) \<times> event list" where
  "install_task e handleErr =
     (case okteto_install e of
        Inr u \<Rightarrow> (Inr (), [OktetoInstall])
      | Inl err \<Rightarrow>
          (let t = [OktetoInstall, Track OktetoInstallFailed,
                    CaptureError (''okteto install failed: '' @ err)]
           in if handleErr
              then (Inr (), t @ [ShowErrorMessage (''Okteto was not installed: '' @ err)])
              else (Inl (''Okteto was not installed: '' @ err), t)))"

definition installCmd :: "env \<Rightarrow> bool \<Rightarrow> bool \<Rightarrow> (error + unit) \<times> event list" where
  "installCmd e upgrade handleErr =
     (let title = (if upgrade then ''Okteto is out of date, upgrading''
                   else ''Installing Okteto'');
          success = (if upgrade then ''Okteto was successfully upgraded''
                     else ''Okteto was successfully installed'');
          t = [ConsoleLog ''installing okteto'', Track Install, WithProgress (Some title) False]
      in case install_task e handleErr of
           (Inl err, t') \<Rightarrow> (Inl err, t @ t')
         | (Inr u, t') \<Rightarrow> (Inr (), t @ t' @ [ShowInformationMessage success]))"

subsection \<open>\<open>waitForFinalState\<close> and \<open>waitForUp\<close>\<close>

text \<open>
  The variables of the polling loop: the map \<open>seen\<close>, the tick \<open>counter\<close>, and the trace
  so far. \<open>queries\<close> counts the calls of \<open>okteto.getState\<close> made so far: it selects the
  collaborator's next answer.
\<close>

record loop_state =
  seen :: "string \<rightharpoonup> bool"
  counter :: nat
  queries :: nat
  trace :: "event list"

definition timeout :: nat where
  "timeout = 5 * 60"

definition emit :: "event list \<Rightarrow> loop_state \<Rightarrow> loop_state" where
  "emit evs s = s\<lparr>trace := trace s @ evs\<rparr>"

text \<open>
  The first statements of an iteration, after \<open>okteto.getState\<close> has answered \<open>res\<close>:
  the progress report and the log line for a tag that \<open>seen\<close> does not have, then
  \<open>seen.set(res.state, true)\<close>.
\<close>

definition observe :: "env \<Rightarrow> poll_result \<Rightarrow> loop_state \<Rightarrow> loop_state" where
  "observe e res s =
     (let s' = (if res_state res \<notin> dom (seen s)
                then emit [ProgressReport (okteto_getStateMessages e (res_state res)),
                           ConsoleLog (''okteto is '' @ res_state res)] s
                else s)
      in s'\<lparr>seen := (seen s')(res_state res \<mapsto> True)\<rparr>)"

text \<open>
  One iteration of the \<open>while (true)\<close> loop, up to the \<open>await sleep\<close>: it either
  returns from \<open>waitForFinalState\<close> (\<open>Return\<close>; \<open>Inl\<close> when \<open>okteto.getState\<close> throws,
  which nothing in the loop catches) or goes on to sleep (\<open>Continue\<close>).
\<close>

datatype step =
    Continue loop_state
  | Return loop_state "error + final_state"

definition loop_body :: "env \<Rightarrow> string \<Rightarrow> string \<Rightarrow> loop_state \<Rightarrow> step" where
  "loop_body e namespace name s =
     (let s1 = emit [OktetoGetState namespace name] (s\<lparr>queries := queries s + 1\<rparr>)
      in case okteto_getState e namespace name (queries s) of
           Inl err \<Rightarrow> Return s1 (Inl err)
         | Inr res \<Rightarrow>
             (let s3 = observe e res s1
              in if okteto_state_ready e = res_state res
                 then Return s3 (Inr \<lparr>result = True, message = ''''\<rparr>)
                 else if okteto_state_failed e = res_state res
                 then Return s3 (Inr \<lparr>result = False, message = res_message res\<rparr>)
                 else (let s4 = s3\<lparr>counter := counter s3 + 1\<rparr>
                       in if counter s4 = timeout
                          then Return s4 (Inr \<lparr>result = False,
                                 message = ''task didn't finish in 5 minutes''\<rparr>)
                          else Continue s4)))"

text \<open>
  The loop. It gives control back to the host at \<open>await sleep\<close>; \<open>host k\<close> are the
  events of the callbacks that the host runs during the sleep that follows tick \<open>k\<close>.
  Nothing bounds the loop but its own counter, so the model is a partial function:
  \<open>None\<close> is a loop that never returns.
\<close>

partial_function (option) poll_loop ::
  "env \<Rightarrow> (nat \<Rightarrow> event list) \<Rightarrow> string \<Rightarrow> string \<Rightarrow> loop_state
     \<Rightarrow> (loop_state \<times> (error + final_state)) option" where
  "poll_loop e host namespace name s =
     (case loop_body e namespace name s of
        Return s' r \<Rightarrow> Some (s', r)
      | Continue s' \<Rightarrow>
          poll_loop e host namespace name (emit (sleep 1000 @ host (counter s')) s'))"

definition waitForFinalState ::
  "env \<Rightarrow> (nat \<Rightarrow> event list) \<Rightarrow> string \<Rightarrow> string
     \<Rightarrow> (loop_state \<times> (error + final_state)) option" where
  "waitForFinalState e host namespace name =
     poll_loop e host namespace name
       \<lparr>seen = Map.empty, counter = 0, queries = 0,
        trace = [ProgressReport (Some ''Launching your development environment...'')]\<rparr>"

text \<open>
  The handler that \<open>waitForUp\<close> registers with \<open>token.onCancellationRequested\<close>. The
  host runs it when the user cancels; the command \<open>okteto.down\<close> is dispatched and not
  awaited.
\<close>

definition onCancellationRequested :: "env \<Rightarrow> nat \<Rightarrow> event list" where
  "onCancellationRequested e k =
     (if cancellationRequested e = Some k
      then [Track UpCancelled, ExecuteCommand ''okteto.down''] else [])"

definition waitForUp :: "env \<Rightarrow> string \<Rightarrow> string \<Rightarrow> ((error + unit) \<times> event list) option" where
  "waitForUp e namespace name =
     (case waitForFinalState e (onCancellationRequested e) namespace name of
        None \<Rightarrow> None
      | Some (s, r) \<Rightarrow>
          (let t = WithProgress None True # trace s
           in case r of
                Inl err \<Rightarrow> Some (Inl err, t)
              | Inr res \<Rightarrow>
                  if \<not> result res
                  then Some (Inl (''Okteto: Up command failed: '' @ message res),
                             t @ [Track OktetoUpFailed, ConsoleError (message res)])
                  else Some (Inr (), t)))"

subsection \<open>The pickers\<close>

definition showManifestPicker :: "env \<Rightarrow> string option \<times> event list" where
  "showManifestPicker e =
     (let files = findFiles e ''**/okteto.{yml,yaml}'' (Some ''**/node_modules/**'');
          t = [FindFiles ''**/okteto.{yml,yaml}'' (Some ''**/node_modules/**'')]
      in if length files = 0
         then (None, t @ [ShowErrorMessage
                 (''No manifests found in your workspace.'' @ [CHR 0x0A, CHR 0x0A] @
                  ''Please run the 'Okteto: Create Manifest' command to create it and then try again.'')])
         else (let items = map (\<lambda>file. (asRelativePath e file, file)) files
               in (map_option snd (pick e items), t @ [ShowQuickPick (map fst items)])))"

definition showWorkspacePicker :: "env \<Rightarrow> string option \<Rightarrow> bool \<times> event list" where
  "showWorkspacePicker e repository =
     (let items =
            (if truthy repository
             then [(''Clone repository '' @ [CHR 0x22] @ string_of repository @ [CHR 0x22] @
                    '' and open folder...'', ''clone'')]
             else []) @
            [(''Open existing folder...'', ''open'')];
          t = [ShowQuickPick (map fst items)];
          selectedItem = map_option snd (pick e items)
      in if selectedItem = Some ''clone''
         then (False,
               t @ [WithProgress (Some (''Cloning repository '' @ [CHR 0x22] @
                      string_of repository @ [CHR 0x22] @ ''...'')) False] @ sleep 3000)
         else if selectedItem = Some ''open''
         then (case showOpenDialog e of
                 Some (uri0 # uris) \<Rightarrow>
                   (let path = split_on (CHR ''/'') uri0;
                        name = (if length path > 0 then last path else uri0)
                    in (updateWorkspaceFolders e,
                        t @ [ShowOpenDialog, ConsoleLog (''Name:  '' @ name),
                             UpdateWorkspaceFolders
                               (case workspaceFolders e of None \<Rightarrow> 0 | Some fs \<Rightarrow> length fs)
                               name uri0] @ sleep 1000))
               | _ \<Rightarrow> (False, t @ [ShowOpenDialog]))
         else (False, t))"

definition getManifestOrAsk :: "env \<Rightarrow> string option \<Rightarrow> string option \<times> event list" where
  "getManifestOrAsk e activeManifest =
     (if truthy activeManifest then (activeManifest, [])
      else (case showManifestPicker e of
              (Some manifestUri, t) \<Rightarrow> (Some manifestUri, t @ [Track ManifestSelected])
            | (None, t) \<Rightarrow> (None, t @ [Track ManifestDismissed])))"

subsection \<open>\<open>upCommand\<close>\<close>

text \<open>
  The commands read and write the module variable \<open>activeManifest\<close> (\<open>None\<close> until it is
  first assigned): they take its value and return the new one with their trace.

  Step 5 of \<open>upCommand\<close>, reached with the namespace of the manifest resolved.
\<close>

definition up_container ::
  "env \<Rightarrow> event list \<Rightarrow> string \<Rightarrow> Manifest \<Rightarrow> string
     \<Rightarrow> (string option \<times> event list) option" where
  "up_container e t manifestPath m kubeconfig =
     (let namespace = string_of (manifest_namespace m);
          name = manifest_name m;
          t5 = t @ [OktetoUp manifestPath namespace name kubeconfig];
          activeManifest = Some manifestPath
      in case waitForUp e namespace name of
           None \<Rightarrow> None
         | Some (Inl err, tw) \<Rightarrow>
             Some (activeManifest,
                   t5 @ tw @ [CaptureError (''okteto up failed: '' @ err)] @ onOktetoFailed err)
         | Some (Inr u, tw) \<Rightarrow>
             Some (activeManifest, t5 @ tw @ finalizeUp namespace name))"

text \<open>
  \<open>upCommand\<close> from the point where a manifest has been selected: the manifest is
  loaded, its namespace resolved (step 4) and the container set up (step 5).
\<close>

definition up_manifest ::
  "env \<Rightarrow> string option \<Rightarrow> event list \<Rightarrow> string
     \<Rightarrow> (string option \<times> event list) option" where
  "up_manifest e activeManifest t manifestPath =
     (let t4 = t @ [Track ManifestSelected,
                    ConsoleLog (''manifest selected: '' @ manifestPath),
                    GetManifest manifestPath]
      in case manifest_getManifest e manifestPath of
           Inl err \<Rightarrow>
             Some (activeManifest,
                   t4 @ [Track ManifestLoadFailed,
                         CaptureError (''load manifest failed: '' @ err)] @
                   onOktetoFailed (''Okteto: Up failed to load your Okteto manifest: '' @ err))
         | Inr m \<Rightarrow>
             (let kubeconfig = kubernetes_getKubeconfig e
              in if \<not> truthy (manifest_namespace m)
                 then (let ns = kubernetes_getCurrentNamespace e kubeconfig
                       in if \<not> truthy ns
                          then Some (activeManifest,
                                 t4 @ [ShowErrorMessage
                                         ''Couldn't detect your current Kubernetes context.''])
                          else up_container e t4 manifestPath
                                 (m\<lparr>manifest_namespace := ns\<rparr>) kubeconfig)
                 else up_container e t4 manifestPath m kubeconfig))"

text \<open>
  The command, steps 1 to 3. When \<open>path\<close> is given and \<open>findFiles\<close> finds it,
  \<open>manifestUri\<close> stays \<open>undefined\<close>: the source assigns it in no such branch.
\<close>

definition upCommand ::
  "env \<Rightarrow> string option \<Rightarrow> string option \<Rightarrow> string option
     \<Rightarrow> (string option \<times> event list) option" where
  "upCommand e activeManifest repository path =
     (let t1 = (if \<not> truthy (workspace_name e)
                then ConsoleLog (''Select workspace. Repo:  '' @
                       (case repository of None \<Rightarrow> ''null'' | Some r \<Rightarrow> r)) #
                     snd (showWorkspacePicker e repository)
                else []);
          (install, upgrade) = okteto_needsInstall e;
          (r, t2) = (if install then installCmd e upgrade False else (Inr (), []))
      in case r of
           Inl err \<Rightarrow> Some (activeManifest, t1 @ t2 @ [ShowErrorMessage err])
         | Inr u \<Rightarrow>
             (let (manifestUri, t3) =
                    (if truthy path
                     then (let files = findFiles e (string_of path) None;
                               t = [FindFiles (string_of path) None]
                           in if length files = 0
                              then (case showManifestPicker e of (uri, t') \<Rightarrow> (uri, t @ t'))
                              else (None, t))
                     else showManifestPicker e)
              in case manifestUri of
                   None \<Rightarrow> Some (activeManifest, t1 @ t2 @ t3 @ [Track ManifestDismissed])
                 | Some manifestPath \<Rightarrow>
                     up_manifest e activeManifest (t1 @ t2 @ t3) manifestPath))"

subsection \<open>\<open>downCommand\<close>\<close>

text \<open>The \<open>try\<close>/\<open>catch\<close> around \<open>okteto.down\<close> that ends \<open>downCommand\<close>.\<close>

definition down_container ::
  "env \<Rightarrow> string option \<Rightarrow> event list \<Rightarrow> string \<Rightarrow> Manifest \<Rightarrow> string
     \<Rightarrow> string option \<times> event list" where
  "down_container e activeManifest t manifestPath m kubeconfig =
     (let namespace = string_of (manifest_namespace m);
          t' = t @ [OktetoDown manifestPath namespace kubeconfig]
      in case okteto_down e manifestPath namespace kubeconfig of
           Inr u \<Rightarrow>
             (Some '''',
              t' @ [ShowInformationMessage ''Okteto environment deactivated'',
                    Track DownFinished])
         | Inl err \<Rightarrow>
             (activeManifest,
              t' @ [Track OktetoDownFailed, CaptureError (''okteto down failed: '' @ err),
                    ShowErrorMessage (''Okteto: Down failed: '' @ err)]))"

text \<open>
  \<open>downCommand\<close> from the point where it has a manifest path: the manifest is loaded,
  its namespace resolved and the environment torn down.
\<close>

definition down_manifest ::
  "env \<Rightarrow> string option \<Rightarrow> event list \<Rightarrow> string \<Rightarrow> string option \<times> event list" where
  "down_manifest e activeManifest t manifestPath =
     (let t4 = t @ [GetManifest manifestPath]
      in case manifest_getManifest e manifestPath of
           Inl err \<Rightarrow>
             (activeManifest,
              t4 @ [Track ManifestLoadFailed,
                    CaptureError (''load manifest failed: '' @ err)] @
              onOktetoFailed (''Okteto: Down failed to load your Okteto manifest: '' @ err))
         | Inr m \<Rightarrow>
             (let kubeconfig = kubernetes_getKubeconfig e
              in if \<not> truthy (manifest_namespace m)
                 then (let ns = kubernetes_getCurrentNamespace e kubeconfig
                       in if \<not> truthy ns
                          then (activeManifest,
                                t4 @ [ShowErrorMessage
                                        ''Couldn't detect your current Kubernetes context.''])
                          else down_container e activeManifest t4 manifestPath
                                 (m\<lparr>manifest_namespace := ns\<rparr>) kubeconfig)
                 else down_container e activeManifest t4 manifestPath m kubeconfig))"

definition downCommand :: "env \<Rightarrow> string option \<Rightarrow> string option \<times> event list" where
  "downCommand e activeManifest =
     (let (install, upgrade) = okteto_needsInstall e;
          (r, t1) = (if install then installCmd e upgrade False else (Inr (), []))
      in case r of
           Inl err \<Rightarrow> (activeManifest, t1 @ [ShowErrorMessage err])
         | Inr u \<Rightarrow>
             (let (manifestPath, t2) = getManifestOrAsk e activeManifest;
                  t3 = t1 @ [Track Down] @ t2
              in if \<not> truthy manifestPath then (activeManifest, t3)
                 else down_manifest e activeManifest t3 (string_of manifestPath)))"

section \<open>Reading a run\<close>

text \<open>
  What the statements below say about a run of the polling loop is read off the answers
  of \<open>okteto.getState\<close> and off the trace.

  \<open>pending e namespace name i\<close>: answer \<open>i\<close> is a poll result whose tag is neither
  \<open>okteto.state.ready\<close> nor \<open>okteto.state.failed\<close>.
\<close>

definition pending :: "env \<Rightarrow> string \<Rightarrow> string \<Rightarrow> nat \<Rightarrow> bool" where
  "pending e namespace name i =
     (case okteto_getState e namespace name i of
        Inl err \<Rightarrow> False
      | Inr res \<Rightarrow>
          res_state res \<noteq> okteto_state_ready e \<and> res_state res \<noteq> okteto_state_failed e)"

text \<open>
  What the loop returns when answer \<open>i\<close> is the last one it asks for, and the shape of
  a run that starts with \<open>q\<close> answers consumed and ends in the state \<open>s'\<close> with \<open>r\<close>.
\<close>

definition verdict :: "env \<Rightarrow> string \<Rightarrow> string \<Rightarrow> nat \<Rightarrow> error + final_state" where
  "verdict e namespace name i =
     (case okteto_getState e namespace name i of
        Inl err \<Rightarrow> Inl err
      | Inr res \<Rightarrow>
          if res_state res = okteto_state_ready e
          then Inr \<lparr>result = True, message = ''''\<rparr>
          else if res_state res = okteto_state_failed e
          then Inr \<lparr>result = False, message = res_message res\<rparr>
          else Inr \<lparr>result = False, message = ''task didn't finish in 5 minutes''\<rparr>)"

definition run_ok ::
  "env \<Rightarrow> string \<Rightarrow> string \<Rightarrow> nat \<Rightarrow> loop_state \<Rightarrow> error + final_state \<Rightarrow> bool" where
  "run_ok e namespace name q s' r =
     (q < queries s' \<and> queries s' \<le> timeout
      \<and> (\<forall>i. q \<le> i \<and> Suc i < queries s' \<longrightarrow> pending e namespace name i)
      \<and> r = verdict e namespace name (queries s' - 1)
      \<and> (pending e namespace name (queries s' - 1) \<longrightarrow> queries s' = timeout)
      \<and> counter s' =
          (if pending e namespace name (queries s' - 1) then queries s' else queries s' - 1))"

text \<open>The tags of the answers \<open>i\<close> with \<open>q \<le> i < n\<close>, in order (a throw has none).\<close>

definition tags :: "env \<Rightarrow> string \<Rightarrow> string \<Rightarrow> nat \<Rightarrow> nat \<Rightarrow> string list" where
  "tags e namespace name q n =
     concat (map (\<lambda>i. case okteto_getState e namespace name i of
                         Inl err \<Rightarrow> []
                       | Inr res \<Rightarrow> [res_state res]) [q..<n])"

text \<open>
  \<open>fresh S xs\<close>: the elements of \<open>xs\<close> at their first occurrence, those of \<open>S\<close> left out.
\<close>

fun fresh :: "'a set \<Rightarrow> 'a list \<Rightarrow> 'a list" where
  "fresh S [] = []"
| "fresh S (x # xs) = (if x \<in> S then fresh S xs else x # fresh (insert x S) xs)"

text \<open>The calls of \<open>okteto.getState\<close>, the progress reports and the log lines of a trace.\<close>

definition is_query :: "event \<Rightarrow> bool" where
  "is_query ev = (case ev of OktetoGetState namespace name \<Rightarrow> True | _ \<Rightarrow> False)"

definition reports :: "event list \<Rightarrow> string option list" where
  "reports t = concat (map (\<lambda>ev. case ev of ProgressReport m \<Rightarrow> [m] | _ \<Rightarrow> []) t)"

definition logs :: "event list \<Rightarrow> string list" where
  "logs t = concat (map (\<lambda>ev. case ev of ConsoleLog l \<Rightarrow> [l] | _ \<Rightarrow> []) t)"

text \<open>The calls of \<open>okteto.up\<close> of a trace.\<close>

definition is_up :: "event \<Rightarrow> bool" where
  "is_up ev = (case ev of OktetoUp manifestPath namespace name kubeconfig \<Rightarrow> True | _ \<Rightarrow> False)"

text \<open>The loads of a manifest and the calls of \<open>okteto.down\<close> of a trace.\<close>

definition is_load :: "event \<Rightarrow> bool" where
  "is_load ev = (case ev of GetManifest manifestPath \<Rightarrow> True | _ \<Rightarrow> False)"

definition is_down :: "event \<Rightarrow> bool" where
  "is_down ev = (case ev of OktetoDown manifestPath namespace kubeconfig \<Rightarrow> True | _ \<Rightarrow> False)"

text \<open>A trace with no load of a manifest and no call of \<open>okteto.up\<close> or \<open>okteto.down\<close>.\<close>

definition quiet :: "event list \<Rightarrow> bool" where
  "quiet t = (filter (\<lambda>ev. is_up ev \<or> is_load ev \<or> is_down ev) t = [])"

text \<open>
  The events of the cancellation handler, and a loop state with them removed from its
  trace.
\<close>

definition of_handler :: "event \<Rightarrow> bool" where
  "of_handler ev = (ev = Track UpCancelled \<or> ev = ExecuteCommand ''okteto.down'')"

definition without_handler :: "loop_state \<Rightarrow> loop_state" where
  "without_handler s = s\<lparr>trace := filter (\<lambda>ev. \<not> of_handler ev) (trace s)\<rparr>"

section \<open>Example environments\<close>

text \<open>
  An environment for the examples: a workspace is open, okteto is installed, the user
  picks the first manifest, \<open>okteto.getState\<close> gives the listed answers and then
  \<open>starting\<close> for ever.
\<close>

definition example_env :: "(error + poll_result) list \<Rightarrow> nat option \<Rightarrow> env" where
  "example_env answers cancel =
     \<lparr>workspace_name = Some ''shop'',
      workspaceFolders = Some [''/home/dev/shop''],
      asRelativePath = (\<lambda>p. p),
      findFiles = (\<lambda>incl excl. [''/home/dev/shop/okteto.yml'']),
      showQuickPick = (\<lambda>labels. Some 0),
      showOpenDialog = None,
      updateWorkspaceFolders = True,
      cancellationRequested = cancel,
      manifest_getManifest =
        (\<lambda>p. Inr \<lparr>manifest_name = ''app'', manifest_namespace = None\<rparr>),
      kubernetes_getKubeconfig = ''/home/dev/.kube/config'',
      kubernetes_getCurrentNamespace = (\<lambda>c. Some ''dev''),
      okteto_needsInstall = (False, False),
      okteto_install = Inr (),
      okteto_down = (\<lambda>p n c. Inr ()),
      okteto_state_ready = ''ready'',
      okteto_state_failed = ''failed'',
      okteto_getStateMessages =
        [''starting'' \<mapsto> ''Starting your development environment...'',
         ''activating'' \<mapsto> ''Activating your development environment...'',
         ''ready'' \<mapsto> ''Your development environment is ready...''],
      okteto_getState =
        (\<lambda>n a i. if i < length answers then answers ! i
                 else Inr \<lparr>res_state = ''starting'', res_message = ''''\<rparr>)\<rparr>"

definition poll :: "string \<Rightarrow> string \<Rightarrow> error + poll_result" where
  "poll tag msg = Inr \<lparr>res_state = tag, res_message = msg\<rparr>"

section \<open>The polling loop\<close>

lemma observe_simps:
  "counter (observe e res s) = counter s"
  "queries (observe e res s) = queries s"
  "seen (observe e res s) = (seen s)(res_state res \<mapsto> True)"
  "trace (observe e res s) =
     trace s @ (if res_state res \<in> dom (seen s) then []
                else [ProgressReport (okteto_getStateMessages e (res_state res)),
                      ConsoleLog (''okteto is '' @ res_state res)])"
  by (simp_all add: observe_def emit_def Let_def)

lemma loop_body_throw:
  "okteto_getState e ns nm (queries s) = Inl err \<Longrightarrow>
     loop_body e ns nm s =
       Return (emit [OktetoGetState ns nm] (s\<lparr>queries := Suc (queries s)\<rparr>)) (Inl err)"
  by (simp add: loop_body_def)

lemma loop_body_answer:
  "okteto_getState e ns nm (queries s) = Inr res \<Longrightarrow>
     loop_body e ns nm s =
       (let s3 = observe e res (emit [OktetoGetState ns nm] (s\<lparr>queries := Suc (queries s)\<rparr>))
        in if okteto_state_ready e = res_state res
           then Return s3 (Inr \<lparr>result = True, message = ''''\<rparr>)
           else if okteto_state_failed e = res_state res
           then Return s3 (Inr \<lparr>result = False, message = res_message res\<rparr>)
           else if Suc (counter s) = timeout
           then Return (s3\<lparr>counter := Suc (counter s)\<rparr>)
                  (Inr \<lparr>result = False, message = ''task didn't finish in 5 minutes''\<rparr>)
           else Continue (s3\<lparr>counter := Suc (counter s)\<rparr>))"
  by (simp add: loop_body_def Let_def observe_simps emit_def)

lemma loop_body_Continue:
  assumes "loop_body e ns nm s = Continue s'"
  shows "counter s' = Suc (counter s) \<and> counter s' \<noteq> timeout \<and> queries s' = Suc (queries s)
     \<and> pending e ns nm (queries s)"
proof (cases "okteto_getState e ns nm (queries s)")
  case (Inl err)
  then show ?thesis using assms by (simp add: loop_body_throw)
next
  case (Inr res)
  show ?thesis
    using assms unfolding loop_body_answer[OF Inr] Let_def
    by (auto simp add: pending_def Inr observe_simps emit_def split: if_splits)
qed

lemma loop_body_Return:
  assumes "loop_body e ns nm s = Return s' r"
  shows "queries s' = Suc (queries s) \<and> r = verdict e ns nm (queries s)
     \<and> (pending e ns nm (queries s) \<longrightarrow> counter s' = timeout \<and> counter s' = Suc (counter s))
     \<and> (\<not> pending e ns nm (queries s) \<longrightarrow> counter s' = counter s)"
proof (cases "okteto_getState e ns nm (queries s)")
  case (Inl err)
  then show ?thesis using assms by (auto simp add: loop_body_throw pending_def verdict_def emit_def)
next
  case (Inr res)
  show ?thesis
    using assms unfolding loop_body_answer[OF Inr] Let_def
    by (auto simp add: pending_def verdict_def Inr observe_simps emit_def split: if_splits)
qed


lemma poll_loop_rule:
  assumes "counter s < timeout"
    and ret: "\<And>s s' r. counter s < timeout \<Longrightarrow> loop_body e ns nm s = Return s' r \<Longrightarrow> Q s (s', r)"
    and cont: "\<And>s s' y. counter s < timeout \<Longrightarrow> loop_body e ns nm s = Continue s' \<Longrightarrow>
                 counter s' < timeout \<Longrightarrow>
                 poll_loop e host ns nm (emit (sleep 1000 @ host (counter s')) s') = Some y \<Longrightarrow>
                 Q (emit (sleep 1000 @ host (counter s')) s') y \<Longrightarrow> Q s y"
  shows "\<exists>y. poll_loop e host ns nm s = Some y \<and> Q s y"
  using assms(1)
proof (induction "timeout - counter s" arbitrary: s)
  case 0
  then show ?case by simp
next
  case (Suc n)
  show ?case
  proof (cases "loop_body e ns nm s")
    case (Return s' r)
    then show ?thesis
      using ret[OF Suc.prems Return] by (subst poll_loop.simps) simp
  next
    case (Continue s')
    note b = loop_body_Continue[OF Continue]
    let ?s = "emit (sleep 1000 @ host (counter s')) s'"
    have c: "counter ?s = counter s'"
      by (simp add: emit_def)
    have lt: "counter s' < timeout"
      using b Suc.prems by simp
    have "n = timeout - counter ?s"
      using Suc.hyps(2) b c by simp
    from Suc.hyps(1)[OF this] lt c obtain y
      where y: "poll_loop e host ns nm ?s = Some y" "Q ?s y"
      by auto
    show ?thesis
      using y cont[OF Suc.prems Continue lt y] Continue by (subst poll_loop.simps) simp
  qed
qed

lemma run_ok_Return:
  assumes "loop_body e ns nm s = Return s' r" and "queries s = counter s" and "counter s < timeout"
  shows "run_ok e ns nm (queries s) s' r"
  using loop_body_Return[OF assms(1)] assms(2,3) by (auto simp: run_ok_def)

lemma run_ok_Continue:
  assumes "loop_body e ns nm s = Continue s'" and "queries s = counter s"
    and "run_ok e ns nm (queries s') s'' r"
  shows "run_ok e ns nm (queries s) s'' r"
proof -
  note b = loop_body_Continue[OF assms(1)]
  have "pending e ns nm i" if "queries s \<le> i" "Suc i < queries s''" for i
  proof (cases "i = queries s")
    case True
    then show ?thesis using b by simp
  next
    case False
    then have "queries s' \<le> i" using that b by simp
    then show ?thesis using assms(3) that by (simp add: run_ok_def)
  qed
  then show ?thesis
    using assms(3) b unfolding run_ok_def by simp
qed

lemma poll_loop_run:
  assumes "counter s < timeout" and "queries s = counter s"
  shows "\<exists>s' r. poll_loop e host ns nm s = Some (s', r) \<and> run_ok e ns nm (queries s) s' r"
proof -
  let ?Q = "\<lambda>s y. queries s = counter s \<longrightarrow> run_ok e ns nm (queries s) (fst y) (snd y)"
  have "\<exists>y. poll_loop e host ns nm s = Some y \<and> ?Q s y"
  proof (rule poll_loop_rule[OF assms(1)])
    fix s s' r
    assume "counter s < timeout" "loop_body e ns nm s = Return s' r"
    then show "?Q s (s', r)"
      using run_ok_Return by simp
  next
    fix s s' and y :: "loop_state \<times> (error + final_state)"
    assume a: "counter s < timeout" "loop_body e ns nm s = Continue s'" "counter s' < timeout"
      "?Q (emit (sleep 1000 @ host (counter s')) s') y"
    assume "poll_loop e host ns nm (emit (sleep 1000 @ host (counter s')) s') = Some y"
    note b = loop_body_Continue[OF a(2)]
    show "?Q s y"
    proof
      assume q: "queries s = counter s"
      then have "run_ok e ns nm (queries s') (fst y) (snd y)"
        using a(4) b by (simp add: emit_def)
      then show "run_ok e ns nm (queries s) (fst y) (snd y)"
        using run_ok_Continue[OF a(2) q] by simp
    qed
  qed
  then show ?thesis using assms(2) by auto
qed


lemma loop_body_queries:
  "loop_body e ns nm s = Continue s' \<or> loop_body e ns nm s = Return s' r \<Longrightarrow>
     queries s' = Suc (queries s)"
  using loop_body_Continue[of e ns nm s s'] loop_body_Return[of e ns nm s s' r] by auto

lemma loop_body_trace:
  assumes "loop_body e ns nm s = Continue s' \<or> loop_body e ns nm s = Return s' r"
  shows "trace s' = trace s @ OktetoGetState ns nm #
           (case okteto_getState e ns nm (queries s) of
              Inl err \<Rightarrow> []
            | Inr res \<Rightarrow>
                if res_state res \<in> dom (seen s) then []
                else [ProgressReport (okteto_getStateMessages e (res_state res)),
                      ConsoleLog (''okteto is '' @ res_state res)])"
proof (cases "okteto_getState e ns nm (queries s)")
  case (Inl err)
  then show ?thesis using assms by (auto simp add: loop_body_throw emit_def)
next
  case (Inr res)
  show ?thesis
    using assms unfolding loop_body_answer[OF Inr] Let_def
    by (auto simp add: Inr observe_simps emit_def split: if_splits)
qed

lemma loop_body_seen:
  assumes "loop_body e ns nm s = Continue s'"
  shows "\<exists>res. okteto_getState e ns nm (queries s) = Inr res
           \<and> seen s' = (seen s)(res_state res \<mapsto> True)"
proof (cases "okteto_getState e ns nm (queries s)")
  case (Inl err)
  then show ?thesis using assms by (auto simp add: loop_body_throw emit_def)
next
  case (Inr res)
  show ?thesis
    using assms unfolding loop_body_answer[OF Inr] Let_def
    by (auto simp add: Inr observe_simps emit_def split: if_splits)
qed

lemma is_query_simps:
  "is_query (OktetoGetState a b)" "\<not> is_query (ProgressReport m)" "\<not> is_query (ConsoleLog l)"
  "\<not> is_query (SetTimeout n)" "\<not> is_query (Track ev)" "\<not> is_query (ExecuteCommand c)"
  "\<not> is_query (WithProgress title c')"
  by (simp_all add: is_query_def)

lemma poll_loop_queries:
  assumes "counter s < timeout" and quiet: "\<And>k. filter is_query (host k) = []"
  shows "\<exists>y. poll_loop e host ns nm s = Some y
           \<and> length (filter is_query (trace (fst y))) + queries s
               = length (filter is_query (trace s)) + queries (fst y)"
proof (rule poll_loop_rule[OF assms(1)])
  fix s s' r
  assume "loop_body e ns nm s = Return s' r"
  then show "length (filter is_query (trace (fst (s', r)))) + queries s
               = length (filter is_query (trace s)) + queries (fst (s', r))"
    using loop_body_trace[of e ns nm s s' r] loop_body_queries[of e ns nm s s' r]
    by (simp add: is_query_simps split: sum.splits)
next
  fix s s' and y :: "loop_state \<times> (error + final_state)"
  assume a: "loop_body e ns nm s = Continue s'"
    and ih: "length (filter is_query (trace (fst y))) + queries (emit (sleep 1000 @ host (counter s')) s')
               = length (filter is_query (trace (emit (sleep 1000 @ host (counter s')) s'))) + queries (fst y)"
  show "length (filter is_query (trace (fst y))) + queries s
               = length (filter is_query (trace s)) + queries (fst y)"
    using ih loop_body_trace[of e ns nm s s'] loop_body_queries[of e ns nm s s'] a
    by (simp add: is_query_simps emit_def sleep_def quiet split: sum.splits)
qed

lemma poll_loop_sleeps:
  assumes "counter s < timeout" and quiet: "\<And>k. count_list (host k) (SetTimeout 1000) = 0"
  shows "\<exists>y. poll_loop e host ns nm s = Some y
           \<and> count_list (trace (fst y)) (SetTimeout 1000) + Suc (queries s)
               = count_list (trace s) (SetTimeout 1000) + queries (fst y)"
proof (rule poll_loop_rule[OF assms(1)])
  fix s s' r
  assume "loop_body e ns nm s = Return s' r"
  then show "count_list (trace (fst (s', r))) (SetTimeout 1000) + Suc (queries s)
               = count_list (trace s) (SetTimeout 1000) + queries (fst (s', r))"
    using loop_body_trace[of e ns nm s s' r] loop_body_queries[of e ns nm s s' r]
    by (simp split: sum.splits)
next
  fix s s' and y :: "loop_state \<times> (error + final_state)"
  assume a: "loop_body e ns nm s = Continue s'"
    and ih: "count_list (trace (fst y)) (SetTimeout 1000) + Suc (queries (emit (sleep 1000 @ host (counter s')) s'))
               = count_list (trace (emit (sleep 1000 @ host (counter s')) s')) (SetTimeout 1000) + queries (fst y)"
  show "count_list (trace (fst y)) (SetTimeout 1000) + Suc (queries s)
               = count_list (trace s) (SetTimeout 1000) + queries (fst y)"
    using ih loop_body_trace[of e ns nm s s'] loop_body_queries[of e ns nm s s'] a
    by (simp add: emit_def sleep_def quiet split: sum.splits)
qed


lemma tags_single:
  "tags e ns nm q (Suc q) =
     (case okteto_getState e ns nm q of Inl err \<Rightarrow> [] | Inr res \<Rightarrow> [res_state res])"
  by (simp add: tags_def)

lemma tags_step:
  "q < n \<Longrightarrow> tags e ns nm q n =
     (case okteto_getState e ns nm q of Inl err \<Rightarrow> [] | Inr res \<Rightarrow> [res_state res])
     @ tags e ns nm (Suc q) n"
  by (simp add: tags_def upt_conv_Cons)

lemma reports_simps:
  "reports [] = []"
  "reports (t @ u) = reports t @ reports u"
  "reports (ProgressReport m # t) = m # reports t"
  "reports (OktetoGetState a b # t) = reports t"
  "reports (ConsoleLog l # t) = reports t"
  "reports (SetTimeout n # t) = reports t"
  "reports (Track ev # t) = reports t"
  "reports (ExecuteCommand c # t) = reports t"
  "reports (WithProgress title c' # t) = reports t"
  by (simp_all add: reports_def)

lemma logs_simps:
  "logs [] = []"
  "logs (t @ u) = logs t @ logs u"
  "logs (ConsoleLog l # t) = l # logs t"
  "logs (OktetoGetState a b # t) = logs t"
  "logs (ProgressReport m # t) = logs t"
  "logs (SetTimeout n # t) = logs t"
  "logs (Track ev # t) = logs t"
  "logs (ExecuteCommand c # t) = logs t"
  "logs (WithProgress title c' # t) = logs t"
  by (simp_all add: logs_def)

lemma fresh_seen: "x \<in> S \<Longrightarrow> fresh (insert x S) xs = fresh S xs"
  by (simp add: insert_absorb)

lemma set_fresh: "set (fresh S xs) = set xs - S"
  by (induction xs arbitrary: S) auto

lemma distinct_fresh: "distinct (fresh S xs)"
  by (induction xs arbitrary: S) (auto simp: set_fresh)

lemma poll_loop_reports:
  assumes "counter s < timeout"
    and quiet: "\<And>k. reports (host k) = []" "\<And>k. logs (host k) = []"
  shows "\<exists>y. poll_loop e host ns nm s = Some y
           \<and> queries s < queries (fst y)
           \<and> reports (trace (fst y)) = reports (trace s) @
               map (okteto_getStateMessages e)
                 (fresh (dom (seen s)) (tags e ns nm (queries s) (queries (fst y))))
           \<and> logs (trace (fst y)) = logs (trace s) @
               map (\<lambda>x. ''okteto is '' @ x)
                 (fresh (dom (seen s)) (tags e ns nm (queries s) (queries (fst y))))"
proof (rule poll_loop_rule[OF assms(1)])
  fix s s' r
  assume "loop_body e ns nm s = Return s' r"
  then show "queries s < queries (fst (s', r))
           \<and> reports (trace (fst (s', r))) = reports (trace s) @
               map (okteto_getStateMessages e)
                 (fresh (dom (seen s)) (tags e ns nm (queries s) (queries (fst (s', r)))))
           \<and> logs (trace (fst (s', r))) = logs (trace s) @
               map (\<lambda>x. ''okteto is '' @ x)
                 (fresh (dom (seen s)) (tags e ns nm (queries s) (queries (fst (s', r)))))"
    using loop_body_trace[of e ns nm s s' r] loop_body_queries[of e ns nm s s' r]
    by (simp add: reports_simps logs_simps tags_single split: sum.splits)
next
  fix s s' and y :: "loop_state \<times> (error + final_state)"
  let ?s = "emit (sleep 1000 @ host (counter s')) s'"
  assume a: "loop_body e ns nm s = Continue s'"
    and ih: "queries ?s < queries (fst y)
           \<and> reports (trace (fst y)) = reports (trace ?s) @
               map (okteto_getStateMessages e)
                 (fresh (dom (seen ?s)) (tags e ns nm (queries ?s) (queries (fst y))))
           \<and> logs (trace (fst y)) = logs (trace ?s) @
               map (\<lambda>x. ''okteto is '' @ x)
                 (fresh (dom (seen ?s)) (tags e ns nm (queries ?s) (queries (fst y))))"
  from loop_body_seen[OF a] obtain res
    where res: "okteto_getState e ns nm (queries s) = Inr res"
      "seen s' = (seen s)(res_state res \<mapsto> True)"
    by blast
  have q: "queries s' = Suc (queries s)"
    using loop_body_queries[of e ns nm s s'] a by simp
  have lt: "queries s < queries (fst y)"
    using ih q by (simp add: emit_def)
  have tr: "trace ?s = trace s @ OktetoGetState ns nm #
              (if res_state res \<in> dom (seen s) then []
               else [ProgressReport (okteto_getStateMessages e (res_state res)),
                     ConsoleLog (''okteto is '' @ res_state res)]) @ sleep 1000 @ host (counter s')"
    using loop_body_trace[of e ns nm s s'] a res by (simp add: emit_def)
  have tg: "tags e ns nm (queries s) (queries (fst y))
              = res_state res # tags e ns nm (queries ?s) (queries (fst y))"
    using tags_step[OF lt, of e ns nm] res q by (simp add: emit_def)
  have sn: "dom (seen ?s) = insert (res_state res) (dom (seen s))"
    using res by (simp add: emit_def)
  show "queries s < queries (fst y)
           \<and> reports (trace (fst y)) = reports (trace s) @
               map (okteto_getStateMessages e)
                 (fresh (dom (seen s)) (tags e ns nm (queries s) (queries (fst y))))
           \<and> logs (trace (fst y)) = logs (trace s) @
               map (\<lambda>x. ''okteto is '' @ x)
                 (fresh (dom (seen s)) (tags e ns nm (queries s) (queries (fst y))))"
    using ih lt unfolding tr tg sn
    by (simp add: reports_simps logs_simps quiet sleep_def fresh_seen)
qed


lemma without_handler_simps:
  "counter (without_handler s) = counter s"
  "queries (without_handler s) = queries s"
  "seen (without_handler s) = seen s"
  "trace (without_handler s) = filter (\<lambda>ev. \<not> of_handler ev) (trace s)"
  by (simp_all add: without_handler_def)

lemma of_handler_simps:
  "\<not> of_handler (OktetoGetState a b)" "\<not> of_handler (ProgressReport m)"
  "\<not> of_handler (ConsoleLog l)" "\<not> of_handler (SetTimeout n)"
  "of_handler (Track UpCancelled)" "of_handler (ExecuteCommand ''okteto.down'')"
  by (simp_all add: of_handler_def)

lemma loop_body_without_handler:
  "loop_body e ns nm (without_handler s) =
     (case loop_body e ns nm s of
        Continue s' \<Rightarrow> Continue (without_handler s')
      | Return s' r \<Rightarrow> Return (without_handler s') r)"
proof (cases "okteto_getState e ns nm (queries s)")
  case (Inl err)
  then have "okteto_getState e ns nm (queries (without_handler s)) = Inl err"
    by (simp add: without_handler_simps)
  then show ?thesis
    using Inl by (simp add: loop_body_throw emit_def without_handler_def of_handler_simps)
next
  case (Inr res)
  then have "okteto_getState e ns nm (queries (without_handler s)) = Inr res"
    by (simp add: without_handler_simps)
  then show ?thesis
    using Inr
    by (simp add: loop_body_answer Let_def observe_def emit_def without_handler_def of_handler_simps)
qed

lemma poll_loop_without_handler:
  assumes "counter s < timeout"
    and quiet: "\<And>k. filter (\<lambda>ev. \<not> of_handler ev) (host k) = []"
  shows "\<exists>y. poll_loop e host ns nm s = Some y
           \<and> poll_loop e (\<lambda>k. []) ns nm (without_handler s) = Some (without_handler (fst y), snd y)"
proof (rule poll_loop_rule[OF assms(1)])
  fix s s' r
  assume "loop_body e ns nm s = Return s' r"
  then show "poll_loop e (\<lambda>k. []) ns nm (without_handler s)
               = Some (without_handler (fst (s', r)), snd (s', r))"
    by (subst poll_loop.simps) (simp add: loop_body_without_handler)
next
  fix s s' and y :: "loop_state \<times> (error + final_state)"
  let ?s = "emit (sleep 1000 @ host (counter s')) s'"
  assume a: "loop_body e ns nm s = Continue s'"
    and ih: "poll_loop e (\<lambda>k. []) ns nm (without_handler ?s) = Some (without_handler (fst y), snd y)"
  have "without_handler ?s = emit (sleep 1000 @ []) (without_handler s')"
    by (simp add: without_handler_def emit_def sleep_def quiet of_handler_simps)
  then show "poll_loop e (\<lambda>k. []) ns nm (without_handler s) = Some (without_handler (fst y), snd y)"
    using ih a by (subst poll_loop.simps) (simp add: loop_body_without_handler without_handler_simps)
qed

lemma poll_loop_handler_count:
  assumes "counter s < timeout"
  shows "\<exists>y. poll_loop e (onCancellationRequested e) ns nm s = Some y
           \<and> queries s < queries (fst y)
           \<and> (queries s = counter s \<longrightarrow>
                count_list (trace (fst y)) (ExecuteCommand ''okteto.down'')
                  = count_list (trace s) (ExecuteCommand ''okteto.down'')
                    + (case cancellationRequested e of
                         None \<Rightarrow> 0
                       | Some k \<Rightarrow> if counter s < k \<and> k < queries (fst y) then 1 else 0))"
proof (rule poll_loop_rule[OF assms(1)])
  fix s s' r
  assume "loop_body e ns nm s = Return s' r"
  then show "queries s < queries (fst (s', r))
           \<and> (queries s = counter s \<longrightarrow>
                count_list (trace (fst (s', r))) (ExecuteCommand ''okteto.down'')
                  = count_list (trace s) (ExecuteCommand ''okteto.down'')
                    + (case cancellationRequested e of
                         None \<Rightarrow> 0
                       | Some k \<Rightarrow> if counter s < k \<and> k < queries (fst (s', r)) then 1 else 0))"
    using loop_body_trace[of e ns nm s s' r] loop_body_queries[of e ns nm s s' r]
    by (auto split: sum.splits option.splits)
next
  fix s s' and y :: "loop_state \<times> (error + final_state)"
  let ?s = "emit (sleep 1000 @ onCancellationRequested e (counter s')) s'"
  assume a: "loop_body e ns nm s = Continue s'"
    and ih: "queries ?s < queries (fst y)
           \<and> (queries ?s = counter ?s \<longrightarrow>
                count_list (trace (fst y)) (ExecuteCommand ''okteto.down'')
                  = count_list (trace ?s) (ExecuteCommand ''okteto.down'')
                    + (case cancellationRequested e of
                         None \<Rightarrow> 0
                       | Some k \<Rightarrow> if counter ?s < k \<and> k < queries (fst y) then 1 else 0))"
  note b = loop_body_Continue[OF a]
  have tr: "trace ?s = trace s @ OktetoGetState ns nm #
              (case okteto_getState e ns nm (queries s) of
                 Inl err \<Rightarrow> []
               | Inr res \<Rightarrow>
                   if res_state res \<in> dom (seen s) then []
                   else [ProgressReport (okteto_getStateMessages e (res_state res)),
                         ConsoleLog (''okteto is '' @ res_state res)])
              @ sleep 1000 @ onCancellationRequested e (counter s')"
    using loop_body_trace[of e ns nm s s'] a by (simp add: emit_def)
  have cnt: "count_list (trace ?s) (ExecuteCommand ''okteto.down'')
               = count_list (trace s) (ExecuteCommand ''okteto.down'')
                 + (if cancellationRequested e = Some (Suc (counter s)) then 1 else 0)"
    unfolding tr using b
    by (simp add: sleep_def onCancellationRequested_def split: sum.splits)
  show "queries s < queries (fst y)
           \<and> (queries s = counter s \<longrightarrow>
                count_list (trace (fst y)) (ExecuteCommand ''okteto.down'')
                  = count_list (trace s) (ExecuteCommand ''okteto.down'')
                    + (case cancellationRequested e of
                         None \<Rightarrow> 0
                       | Some k \<Rightarrow> if counter s < k \<and> k < queries (fst y) then 1 else 0))"
    using ih b unfolding cnt
    by (auto simp add: emit_def split: option.splits)
qed


lemma handler_quiet:
  "filter is_query (onCancellationRequested e k) = []"
  "count_list (onCancellationRequested e k) (SetTimeout 1000) = 0"
  "reports (onCancellationRequested e k) = []"
  "logs (onCancellationRequested e k) = []"
  "filter (\<lambda>ev. \<not> of_handler ev) (onCancellationRequested e k) = []"
  by (simp_all add: onCancellationRequested_def is_query_simps reports_simps logs_simps
        of_handler_simps)

text \<open>All that the lemmas above say about a run from the initial state of the loop.\<close>

lemma waitForFinalState_run:
  "\<exists>s' r. waitForFinalState e (onCancellationRequested e) ns nm = Some (s', r)
     \<and> run_ok e ns nm 0 s' r
     \<and> length (filter is_query (trace s')) = queries s'
     \<and> Suc (count_list (trace s') (SetTimeout 1000)) = queries s'
     \<and> reports (trace s') =
         Some ''Launching your development environment...'' #
         map (okteto_getStateMessages e) (fresh {} (tags e ns nm 0 (queries s')))
     \<and> logs (trace s') = map (\<lambda>x. ''okteto is '' @ x) (fresh {} (tags e ns nm 0 (queries s')))
     \<and> count_list (trace s') (ExecuteCommand ''okteto.down'') =
         (case cancellationRequested e of
            None \<Rightarrow> 0
          | Some k \<Rightarrow> if 0 < k \<and> k < queries s' then 1 else 0)
     \<and> waitForFinalState e (\<lambda>k. []) ns nm = Some (without_handler s', r)"
proof -
  let ?s = "\<lparr>seen = Map.empty, counter = 0, queries = 0,
        trace = [ProgressReport (Some ''Launching your development environment...'')]\<rparr>"
  have c: "counter ?s < timeout" and q: "queries ?s = counter ?s"
    by (simp_all add: timeout_def)
  have w: "without_handler ?s = ?s"
    by (simp add: without_handler_def of_handler_simps)
  from poll_loop_run[OF c q, of e "onCancellationRequested e" ns nm] obtain s' r
    where run: "poll_loop e (onCancellationRequested e) ns nm ?s = Some (s', r)"
      "run_ok e ns nm 0 s' r"
    by auto
  from poll_loop_queries[OF c, of "onCancellationRequested e" e ns nm] run(1)
  have 1: "length (filter is_query (trace s')) = queries s'"
    by (simp add: handler_quiet is_query_simps)
  from poll_loop_sleeps[OF c, of "onCancellationRequested e" e ns nm] run(1)
  have 2: "Suc (count_list (trace s') (SetTimeout 1000)) = queries s'"
    by (simp add: handler_quiet)
  from poll_loop_reports[OF c, of "onCancellationRequested e" e ns nm] run(1)
  have 3: "reports (trace s') =
         Some ''Launching your development environment...'' #
         map (okteto_getStateMessages e) (fresh {} (tags e ns nm 0 (queries s')))"
    and 4: "logs (trace s') = map (\<lambda>x. ''okteto is '' @ x) (fresh {} (tags e ns nm 0 (queries s')))"
    by (simp_all add: handler_quiet reports_simps logs_simps)
  from poll_loop_handler_count[OF c, of e ns nm] run(1)
  have 5: "count_list (trace s') (ExecuteCommand ''okteto.down'') =
         (case cancellationRequested e of
            None \<Rightarrow> 0
          | Some k \<Rightarrow> if 0 < k \<and> k < queries s' then 1 else 0)"
    by (simp split: option.splits)
  from poll_loop_without_handler[OF c, of "onCancellationRequested e" e ns nm] run(1)
  have 6: "poll_loop e (\<lambda>k. []) ns nm ?s = Some (without_handler s', r)"
    by (simp add: handler_quiet w)
  show ?thesis
    using run 1 2 3 4 5 6 unfolding waitForFinalState_def by simp
qed


lemma run_ok_last:
  assumes "run_ok e ns nm 0 s' r" and "k < queries s'" and "\<not> pending e ns nm k"
  shows "queries s' = Suc k \<and> r = verdict e ns nm k"
proof -
  have "\<not> Suc k < queries s'"
    using assms(1,3) by (auto simp: run_ok_def)
  then have "queries s' = Suc k"
    using assms(2) by simp
  then show ?thesis
    using assms(1) by (simp add: run_ok_def)
qed

lemma loop_body_cancellation_update:
  "loop_body (e\<lparr>cancellationRequested := c\<rparr>) ns nm s = loop_body e ns nm s"
proof (cases "okteto_getState e ns nm (queries s)")
  case (Inl err)
  then show ?thesis
    by (simp add: loop_body_throw)
next
  case (Inr res)
  have "observe (e\<lparr>cancellationRequested := c\<rparr>) res s1 = observe e res s1" for s1
    by (simp add: observe_def)
  then show ?thesis
    using Inr by (simp add: loop_body_answer Let_def)
qed

lemma poll_loop_cancellation_update:
  assumes "counter s < timeout"
  shows "\<exists>y. poll_loop e host ns nm s = Some y
           \<and> poll_loop (e\<lparr>cancellationRequested := c\<rparr>) host ns nm s = Some y"
proof (rule poll_loop_rule[OF assms(1)])
  fix s s' r
  assume "loop_body e ns nm s = Return s' r"
  then show "poll_loop (e\<lparr>cancellationRequested := c\<rparr>) host ns nm s = Some (s', r)"
    by (subst poll_loop.simps) (simp add: loop_body_cancellation_update)
next
  fix s s' and y :: "loop_state \<times> (error + final_state)"
  assume "loop_body e ns nm s = Continue s'"
    and "poll_loop (e\<lparr>cancellationRequested := c\<rparr>) host ns nm
           (emit (sleep 1000 @ host (counter s')) s') = Some y"
  then show "poll_loop (e\<lparr>cancellationRequested := c\<rparr>) host ns nm s = Some y"
    by (subst poll_loop.simps) (simp add: loop_body_cancellation_update)
qed

lemma waitForFinalState_not_cancelled:
  assumes "waitForFinalState e (\<lambda>k. []) ns nm = Some y"
  shows "waitForFinalState (e\<lparr>cancellationRequested := None\<rparr>)
           (onCancellationRequested (e\<lparr>cancellationRequested := None\<rparr>)) ns nm = Some y"
proof -
  let ?s = "\<lparr>seen = Map.empty, counter = 0, queries = 0,
        trace = [ProgressReport (Some ''Launching your development environment...'')]\<rparr>"
  have h: "onCancellationRequested (e\<lparr>cancellationRequested := None\<rparr>) = (\<lambda>k. [])"
    by (rule ext) (simp add: onCancellationRequested_def)
  have "counter ?s < timeout"
    by (simp add: timeout_def)
  from poll_loop_cancellation_update[OF this, of e "\<lambda>k. []" ns nm None] assms
  show ?thesis
    unfolding waitForFinalState_def h by simp
qed

lemma waitForUp_trace:
  "waitForUp e ns nm =
     (case waitForFinalState e (onCancellationRequested e) ns nm of
        None \<Rightarrow> None
      | Some (s, r) \<Rightarrow>
          Some (case r of Inl err \<Rightarrow> Inl err
                | Inr res \<Rightarrow> if result res then Inr ()
                             else Inl (''Okteto: Up command failed: '' @ message res),
                WithProgress None True # trace s @
                (case r of Inl err \<Rightarrow> []
                 | Inr res \<Rightarrow> if result res then []
                              else [Track OktetoUpFailed, ConsoleError (message res)])))"
  by (simp add: waitForUp_def Let_def split: option.splits sum.splits)

section \<open>The commands\<close>

lemma install_task_cases:
  "install_task e handleErr =
     (case okteto_install e of
        Inr u \<Rightarrow> (Inr (), [OktetoInstall])
      | Inl err \<Rightarrow>
          if handleErr
          then (Inr (), [OktetoInstall, Track OktetoInstallFailed,
                         CaptureError (''okteto install failed: '' @ err),
                         ShowErrorMessage (''Okteto was not installed: '' @ err)])
          else (Inl (''Okteto was not installed: '' @ err),
                [OktetoInstall, Track OktetoInstallFailed,
                 CaptureError (''okteto install failed: '' @ err)]))"
  by (simp add: install_task_def Let_def split: sum.splits)

lemma quiet_simps:
  "quiet []"
  "quiet (t @ u) = (quiet t \<and> quiet u)"
  "quiet (ev # t) = (\<not> is_up ev \<and> \<not> is_load ev \<and> \<not> is_down ev \<and> quiet t)"
  by (auto simp add: quiet_def)

lemma quiet_filter:
  "quiet t \<Longrightarrow> filter is_up t = [] \<and> filter is_load t = [] \<and> filter is_down t = []"
  by (induction t) (auto simp add: quiet_def split: if_splits)

lemmas kind_defs = is_up_def is_load_def is_down_def

lemma quiet_installCmd: "quiet (snd (installCmd e upgrade handleErr))"
  by (simp add: installCmd_def install_task_cases quiet_simps kind_defs split: sum.splits)

lemma quiet_showManifestPicker: "quiet (snd (showManifestPicker e))"
  by (simp add: showManifestPicker_def Let_def quiet_simps kind_defs)

lemma quiet_showWorkspacePicker: "quiet (snd (showWorkspacePicker e repository))"
  by (simp add: showWorkspacePicker_def Let_def sleep_def quiet_simps kind_defs
        split: option.splits list.splits)

lemma quiet_getManifestOrAsk: "quiet (snd (getManifestOrAsk e activeManifest))"
  using quiet_showManifestPicker[of e]
  by (auto simp add: getManifestOrAsk_def quiet_simps kind_defs split: prod.splits option.splits)

lemma poll_loop_quiet:
  assumes "counter s < timeout"
  shows "\<exists>y. poll_loop e (onCancellationRequested e) ns nm s = Some y
           \<and> (quiet (trace s) \<longrightarrow> quiet (trace (fst y)))"
proof (rule poll_loop_rule[OF assms(1)])
  fix s s' r
  assume "loop_body e ns nm s = Return s' r"
  then show "quiet (trace s) \<longrightarrow> quiet (trace (fst (s', r)))"
    using loop_body_trace[of e ns nm s s' r]
    by (simp add: quiet_simps kind_defs split: sum.splits)
next
  fix s s' and y :: "loop_state \<times> (error + final_state)"
  let ?s = "emit (sleep 1000 @ onCancellationRequested e (counter s')) s'"
  assume "loop_body e ns nm s = Continue s'"
    and "quiet (trace ?s) \<longrightarrow> quiet (trace (fst y))"
  then show "quiet (trace s) \<longrightarrow> quiet (trace (fst y))"
    using loop_body_trace[of e ns nm s s']
    by (simp add: emit_def sleep_def onCancellationRequested_def quiet_simps kind_defs
          split: sum.splits)
qed

lemma waitForUp_total:
  "\<exists>r tw. waitForUp e ns nm = Some (r, tw) \<and> quiet tw"
proof -
  let ?s = "\<lparr>seen = Map.empty, counter = 0, queries = 0,
        trace = [ProgressReport (Some ''Launching your development environment...'')]\<rparr>"
  have "counter ?s < timeout"
    by (simp add: timeout_def)
  from poll_loop_quiet[OF this, of e ns nm] obtain s' r
    where "waitForFinalState e (onCancellationRequested e) ns nm = Some (s', r)"
      and "quiet (trace s')"
    unfolding waitForFinalState_def by (auto simp add: quiet_simps kind_defs)
  then show ?thesis
    by (simp add: waitForUp_trace quiet_simps kind_defs split: sum.splits)
qed

lemma up_container_launches:
  "\<exists>tw. quiet tw
     \<and> up_container e t manifestPath m kubeconfig =
         Some (Some manifestPath,
               t @ OktetoUp manifestPath (string_of (manifest_namespace m)) (manifest_name m)
                     kubeconfig # tw)"
proof -
  from waitForUp_total[of e "string_of (manifest_namespace m)" "manifest_name m"] obtain r tw
    where w: "waitForUp e (string_of (manifest_namespace m)) (manifest_name m) = Some (r, tw)"
      and q: "quiet tw"
    by blast
  show ?thesis
  proof (cases r)
    case (Inl err)
    have "quiet (tw @ [CaptureError (''okteto up failed: '' @ err)] @ onOktetoFailed err)"
      using q by (simp add: onOktetoFailed_def quiet_simps kind_defs)
    then show ?thesis
      using w Inl by (intro exI[of _ "tw @ [CaptureError (''okteto up failed: '' @ err)] @ onOktetoFailed err"])
        (simp add: up_container_def Let_def)
  next
    case (Inr u)
    have "quiet (tw @ finalizeUp (string_of (manifest_namespace m)) (manifest_name m))"
      using q by (simp add: finalizeUp_def quiet_simps kind_defs)
    then show ?thesis
      using w Inr by (intro exI[of _ "tw @ finalizeUp (string_of (manifest_namespace m)) (manifest_name m)"])
        (simp add: up_container_def Let_def)
  qed
qed


lemma up_manifest_shape:
  "\<exists>am' tw. up_manifest e am t p =
       Some (am', t @ [Track ManifestSelected, ConsoleLog (''manifest selected: '' @ p),
                       GetManifest p] @ tw)
     \<and> filter is_load tw = []
     \<and> (case manifest_getManifest e p of
          Inl err \<Rightarrow>
            am' = am \<and>
            tw = [Track ManifestLoadFailed, CaptureError (''load manifest failed: '' @ err),
                  ShowErrorMessage (''Okteto: Up failed to load your Okteto manifest: '' @ err),
                  ShowTerminal]
        | Inr m \<Rightarrow>
            (let ns = (if truthy (manifest_namespace m) then manifest_namespace m
                       else kubernetes_getCurrentNamespace e (kubernetes_getKubeconfig e))
             in if truthy ns
                then am' = Some p \<and>
                     (\<exists>tw'. quiet tw' \<and>
                        tw = OktetoUp p (string_of ns) (manifest_name m)
                               (kubernetes_getKubeconfig e) # tw')
                else am' = am \<and>
                     tw = [ShowErrorMessage ''Couldn't detect your current Kubernetes context.'']))"
proof (cases "manifest_getManifest e p")
  case (Inl err)
  then show ?thesis
    by (simp add: up_manifest_def onOktetoFailed_def kind_defs)
next
  case (Inr m)
  let ?t4 = "t @ [Track ManifestSelected, ConsoleLog (''manifest selected: '' @ p), GetManifest p]"
  let ?kc = "kubernetes_getKubeconfig e"
  let ?ns = "if truthy (manifest_namespace m) then manifest_namespace m
             else kubernetes_getCurrentNamespace e ?kc"
  show ?thesis
  proof (cases "truthy ?ns")
    case False
    then show ?thesis
      using Inr by (simp add: up_manifest_def Let_def kind_defs split: if_splits)
  next
    case True
    let ?m = "if truthy (manifest_namespace m) then m else m\<lparr>manifest_namespace := ?ns\<rparr>"
    have m: "manifest_namespace ?m = ?ns" "manifest_name ?m = manifest_name m"
      by simp_all
    have up: "up_manifest e am t p = up_container e ?t4 p ?m ?kc"
      using Inr True by (simp add: up_manifest_def Let_def split: if_splits)
    from up_container_launches[of e ?t4 p ?m ?kc] obtain tw
      where tw: "quiet tw"
        "up_container e ?t4 p ?m ?kc =
           Some (Some p, ?t4 @ OktetoUp p (string_of ?ns) (manifest_name m) ?kc # tw)"
      unfolding m by blast
    have "filter is_load (OktetoUp p (string_of ?ns) (manifest_name m) ?kc # tw) = []"
      using quiet_filter[OF tw(1)] by (simp add: kind_defs)
    then show ?thesis
      using Inr True tw unfolding up
      by (intro exI[of _ "Some p"]
            exI[of _ "OktetoUp p (string_of ?ns) (manifest_name m) ?kc # tw"])
         (simp add: Let_def)
  qed
qed

lemma upCommand_cases:
  "(\<exists>t0. quiet t0 \<and> upCommand e am repository path = Some (am, t0))
   \<or> (\<exists>t0 p. quiet t0 \<and> upCommand e am repository path = up_manifest e am t0 p)"
proof -
  define t1 where "t1 = (if \<not> truthy (workspace_name e)
                then ConsoleLog (''Select workspace. Repo:  '' @
                       (case repository of None \<Rightarrow> ''null'' | Some r \<Rightarrow> r)) #
                     snd (showWorkspacePicker e repository)
                else [])"
  define i where "i = (if fst (okteto_needsInstall e)
                       then installCmd e (snd (okteto_needsInstall e)) False else (Inr (), []))"
  define sel where "sel = (if truthy path
                     then (let files = findFiles e (string_of path) None;
                               t = [FindFiles (string_of path) None]
                           in if length files = 0
                              then (case showManifestPicker e of (uri, t') \<Rightarrow> (uri, t @ t'))
                              else (None, t))
                     else showManifestPicker e)"
  have q1: "quiet t1"
    using quiet_showWorkspacePicker[of e repository] by (simp add: t1_def quiet_simps kind_defs)
  have q2: "quiet (snd i)"
    using quiet_installCmd[of e "snd (okteto_needsInstall e)" False] by (simp add: i_def quiet_simps)
  have q3: "quiet (snd sel)"
    using quiet_showManifestPicker[of e]
    by (auto simp add: sel_def Let_def quiet_simps kind_defs split: prod.splits)
  have up: "upCommand e am repository path =
          (case fst i of
             Inl err \<Rightarrow> Some (am, t1 @ snd i @ [ShowErrorMessage err])
           | Inr u \<Rightarrow>
               (case fst sel of
                  None \<Rightarrow> Some (am, t1 @ snd i @ snd sel @ [Track ManifestDismissed])
                | Some manifestPath \<Rightarrow> up_manifest e am (t1 @ snd i @ snd sel) manifestPath))"
  proof -
    obtain inst upg where n: "okteto_needsInstall e = (inst, upg)"
      by (cases "okteto_needsInstall e")
    obtain r t2 where i': "i = (r, t2)"
      by (cases i)
    obtain uri t3 where s': "sel = (uri, t3)"
      by (cases sel)
    have i2: "(if inst then installCmd e upg False else (Inr (), [])) = (r, t2)"
      using i' n by (auto simp add: i_def split: if_splits)
    show ?thesis
      unfolding upCommand_def t1_def[symmetric] sel_def[symmetric] n
      by (simp add: Let_def i2 i' s' split: sum.splits option.splits)
  qed
  show ?thesis
  proof (cases "fst i")
    case (Inl err)
    then show ?thesis
      using q1 q2 unfolding up by (simp add: quiet_simps kind_defs)
  next
    case (Inr u)
    show ?thesis
    proof (cases "fst sel")
      case None
      then show ?thesis
        using Inr q1 q2 q3 unfolding up by (simp add: quiet_simps kind_defs)
    next
      case (Some manifestPath)
      have "quiet (t1 @ snd i @ snd sel)"
        using q1 q2 q3 by (simp add: quiet_simps)
      then show ?thesis
        using Inr Some unfolding up by auto
    qed
  qed
qed


lemma quiet_no_load: "quiet t \<Longrightarrow> GetManifest p \<notin> set t"
  by (induction t) (auto simp add: quiet_simps kind_defs)

lemma no_load: "filter is_load t = [] \<Longrightarrow> GetManifest p \<notin> set t"
  by (induction t) (auto simp add: kind_defs split: if_splits)

lemma upCommand_shape:
  "\<exists>am' t. upCommand e am repository path = Some (am', t)
     \<and> ((am' = am \<and> quiet t)
        \<or> (\<exists>t0 p tw. quiet t0 \<and> filter is_load tw = []
             \<and> t = t0 @ [Track ManifestSelected, ConsoleLog (''manifest selected: '' @ p),
                         GetManifest p] @ tw
             \<and> (case manifest_getManifest e p of
                  Inl err \<Rightarrow>
                    am' = am \<and>
                    tw = [Track ManifestLoadFailed, CaptureError (''load manifest failed: '' @ err),
                          ShowErrorMessage
                            (''Okteto: Up failed to load your Okteto manifest: '' @ err),
                          ShowTerminal]
                | Inr m \<Rightarrow>
                    (let ns = (if truthy (manifest_namespace m) then manifest_namespace m
                               else kubernetes_getCurrentNamespace e (kubernetes_getKubeconfig e))
                     in if truthy ns
                        then am' = Some p \<and>
                             (\<exists>tw'. quiet tw' \<and>
                                tw = OktetoUp p (string_of ns) (manifest_name m)
                                       (kubernetes_getKubeconfig e) # tw')
                        else am' = am \<and>
                             tw = [ShowErrorMessage
                                     ''Couldn't detect your current Kubernetes context.'']))))"
  using upCommand_cases[of e am repository path]
proof (elim disjE exE conjE)
  fix t0
  assume "quiet t0" "upCommand e am repository path = Some (am, t0)"
  then show ?thesis
    by blast
next
  fix t0 p
  assume q: "quiet t0" and u: "upCommand e am repository path = up_manifest e am t0 p"
  from up_manifest_shape[of e am t0 p] q show ?thesis
    unfolding u by blast
qed

lemma no_down: "filter is_down t = [] \<Longrightarrow> OktetoDown p ns kc \<notin> set t"
  by (induction t) (auto simp add: kind_defs split: if_splits)

lemma down_container_shape:
  assumes "filter is_down t = []"
  shows "\<exists>tw. filter is_down tw = []
     \<and> down_container e am t p m kc =
         (case okteto_down e p (string_of (manifest_namespace m)) kc of
            Inl err \<Rightarrow> am
          | Inr u \<Rightarrow> Some '''',
          t @ OktetoDown p (string_of (manifest_namespace m)) kc # tw)"
  by (cases "okteto_down e p (string_of (manifest_namespace m)) kc")
     (simp_all add: down_container_def Let_def kind_defs)

lemma down_manifest_shape:
  assumes "filter is_down t = []"
  shows "(fst (down_manifest e am t p) = am \<and> filter is_down (snd (down_manifest e am t p)) = [])
     \<or> (\<exists>ns kc tw. filter is_down tw = []
          \<and> down_manifest e am t p =
              (case okteto_down e p ns kc of Inl err \<Rightarrow> am | Inr u \<Rightarrow> Some '''',
               t @ GetManifest p # OktetoDown p ns kc # tw))"
proof (cases "manifest_getManifest e p")
  case (Inl err)
  then show ?thesis
    using assms by (simp add: down_manifest_def onOktetoFailed_def kind_defs)
next
  case (Inr m)
  let ?kc = "kubernetes_getKubeconfig e"
  let ?ns = "if truthy (manifest_namespace m) then manifest_namespace m
             else kubernetes_getCurrentNamespace e ?kc"
  have t4: "filter is_down (t @ [GetManifest p]) = []"
    using assms by (simp add: kind_defs)
  show ?thesis
  proof (cases "truthy ?ns")
    case False
    then show ?thesis
      using Inr assms by (simp add: down_manifest_def Let_def kind_defs split: if_splits)
  next
    case True
    let ?m = "if truthy (manifest_namespace m) then m else m\<lparr>manifest_namespace := ?ns\<rparr>"
    have d: "down_manifest e am t p = down_container e am (t @ [GetManifest p]) p ?m ?kc"
      using Inr True by (simp add: down_manifest_def Let_def split: if_splits)
    from down_container_shape[OF t4, of e am p ?m ?kc] obtain tw
      where "filter is_down tw = []"
        "down_container e am (t @ [GetManifest p]) p ?m ?kc =
         (case okteto_down e p (string_of (manifest_namespace ?m)) ?kc of
            Inl err \<Rightarrow> am
          | Inr u \<Rightarrow> Some '''',
          (t @ [GetManifest p]) @ OktetoDown p (string_of (manifest_namespace ?m)) ?kc # tw)"
      by blast
    then show ?thesis
      unfolding d by (intro disjI2 exI[of _ "string_of (manifest_namespace ?m)"] exI[of _ ?kc]
          exI[of _ tw]) simp
  qed
qed

lemma downCommand_shape:
  "(fst (downCommand e am) = am \<and> filter is_down (snd (downCommand e am)) = [])
   \<or> (\<exists>t0 p ns kc tw. filter is_down t0 = [] \<and> filter is_down tw = []
        \<and> (truthy am \<longrightarrow> p = string_of am)
        \<and> downCommand e am =
            (case okteto_down e p ns kc of Inl err \<Rightarrow> am | Inr u \<Rightarrow> Some '''',
             t0 @ OktetoDown p ns kc # tw))"
proof -
  define i where "i = (if fst (okteto_needsInstall e)
                       then installCmd e (snd (okteto_needsInstall e)) False else (Inr (), []))"
  define g where "g = getManifestOrAsk e am"
  have q1: "quiet (snd i)"
    using quiet_installCmd[of e "snd (okteto_needsInstall e)" False] by (simp add: i_def quiet_simps)
  have q2: "quiet (snd g)"
    using quiet_getManifestOrAsk[of e am] by (simp add: g_def)
  have g: "truthy am \<Longrightarrow> fst g = am"
    by (simp add: g_def getManifestOrAsk_def)
  have down: "downCommand e am =
          (case fst i of
             Inl err \<Rightarrow> (am, snd i @ [ShowErrorMessage err])
           | Inr u \<Rightarrow>
               if \<not> truthy (fst g) then (am, snd i @ [Track Down] @ snd g)
               else down_manifest e am (snd i @ [Track Down] @ snd g) (string_of (fst g)))"
  proof -
    obtain inst upg where n: "okteto_needsInstall e = (inst, upg)"
      by (cases "okteto_needsInstall e")
    obtain r t2 where i': "i = (r, t2)"
      by (cases i)
    obtain mp t3 where g': "g = (mp, t3)"
      by (cases g)
    have i2: "(if inst then installCmd e upg False else (Inr (), [])) = (r, t2)"
      using i' n by (auto simp add: i_def split: if_splits)
    show ?thesis
      unfolding downCommand_def g_def[symmetric] n
      by (simp add: Let_def i2 i' g' split: sum.splits)
  qed
  show ?thesis
  proof (cases "fst i")
    case (Inl err)
    then show ?thesis
      using quiet_filter[OF q1] unfolding down by (simp add: kind_defs)
  next
    case (Inr u)
    show ?thesis
    proof (cases "truthy (fst g)")
      case False
      then show ?thesis
        using Inr quiet_filter[OF q1] quiet_filter[OF q2] unfolding down by (simp add: kind_defs)
    next
      case True
      let ?t = "snd i @ [Track Down] @ snd g"
      let ?p = "string_of (fst g)"
      have d: "downCommand e am = down_manifest e am ?t ?p"
        using Inr True unfolding down by simp
      have qt: "filter is_down ?t = []"
        using quiet_filter[OF q1] quiet_filter[OF q2] by (simp add: kind_defs)
      from down_manifest_shape[OF qt, of e am ?p] show ?thesis
      proof (elim disjE exE conjE)
        assume "fst (down_manifest e am ?t ?p) = am"
          "filter is_down (snd (down_manifest e am ?t ?p)) = []"
        then show ?thesis
          unfolding d by simp
      next
        fix ns kc tw
        assume tw: "filter is_down tw = []"
          and dm: "down_manifest e am ?t ?p =
              (case okteto_down e ?p ns kc of Inl err \<Rightarrow> am | Inr u \<Rightarrow> Some '''',
               ?t @ GetManifest ?p # OktetoDown ?p ns kc # tw)"
        have "filter is_down (?t @ [GetManifest ?p]) = []"
          using qt by (simp add: kind_defs)
        moreover have "downCommand e am =
              (case okteto_down e ?p ns kc of Inl err \<Rightarrow> am | Inr u \<Rightarrow> Some '''',
               (?t @ [GetManifest ?p]) @ OktetoDown ?p ns kc # tw)"
          unfolding d dm by simp
        moreover have "truthy am \<longrightarrow> ?p = string_of am"
          using g by simp
        ultimately show ?thesis
          using tw by blast
      qed
    qed
  qed
qed

section \<open>The examples, evaluated\<close>

lemma example_env_simps:
  "okteto_getState (example_env answers cancel) ns nm i =
     (if i < length answers then answers ! i
      else Inr \<lparr>res_state = ''starting'', res_message = ''''\<rparr>)"
  "okteto_state_ready (example_env answers cancel) = ''ready''"
  "okteto_state_failed (example_env answers cancel) = ''failed''"
  "okteto_getStateMessages (example_env answers cancel) =
        [''starting'' \<mapsto> ''Starting your development environment...'',
         ''activating'' \<mapsto> ''Activating your development environment...'',
         ''ready'' \<mapsto> ''Your development environment is ready...'']"
  "cancellationRequested (example_env answers cancel) = cancel"
  by (simp_all add: example_env_def)

lemmas run_defs = waitForFinalState_def loop_body_def observe_def emit_def Let_def
  timeout_def sleep_def onCancellationRequested_def poll_def example_env_simps

lemma example_cancelled:
  "waitForUp (example_env [poll ''starting'' '''', poll ''ready'' ''''] (Some 1)) ''dev'' ''app'' =
     Some (Inr (),
       [WithProgress None True,
        ProgressReport (Some ''Launching your development environment...''),
        OktetoGetState ''dev'' ''app'',
        ProgressReport (Some ''Starting your development environment...''),
        ConsoleLog ''okteto is starting'',
        SetTimeout 1000,
        Track UpCancelled, ExecuteCommand ''okteto.down'',
        OktetoGetState ''dev'' ''app'',
        ProgressReport (Some ''Your development environment is ready...''),
        ConsoleLog ''okteto is ready''])"
  by (simp add: waitForUp_def run_defs poll_loop.simps)

lemma example_ready:
  "waitForFinalState
     (example_env [poll ''starting'' '''', poll ''starting'' '''', poll ''activating'' '''',
                   poll ''ready'' ''''] None)
     (onCancellationRequested
       (example_env [poll ''starting'' '''', poll ''starting'' '''', poll ''activating'' '''',
                   poll ''ready'' ''''] None)) ''dev'' ''app'' =
     Some (\<lparr>seen = [''starting'' \<mapsto> True, ''activating'' \<mapsto> True, ''ready'' \<mapsto> True],
            counter = 3, queries = 4,
            trace =
              [ProgressReport (Some ''Launching your development environment...''),
               OktetoGetState ''dev'' ''app'',
               ProgressReport (Some ''Starting your development environment...''),
               ConsoleLog ''okteto is starting'',
               SetTimeout 1000,
               OktetoGetState ''dev'' ''app'',
               SetTimeout 1000,
               OktetoGetState ''dev'' ''app'',
               ProgressReport (Some ''Activating your development environment...''),
               ConsoleLog ''okteto is activating'',
               SetTimeout 1000,
               OktetoGetState ''dev'' ''app'',
               ProgressReport (Some ''Your development environment is ready...''),
               ConsoleLog ''okteto is ready'']\<rparr>,
           Inr \<lparr>result = True, message = ''''\<rparr>)"
  by (simp add: run_defs poll_loop.simps)


lemma example_failed:
  "waitForFinalState
     (example_env [poll ''starting'' '''', poll ''failed'' ''crash loop''] None)
     (onCancellationRequested
       (example_env [poll ''starting'' '''', poll ''failed'' ''crash loop''] None)) ''dev'' ''app'' =
     Some (\<lparr>seen = [''starting'' \<mapsto> True, ''failed'' \<mapsto> True],
            counter = 1, queries = 2,
            trace =
              [ProgressReport (Some ''Launching your development environment...''),
               OktetoGetState ''dev'' ''app'',
               ProgressReport (Some ''Starting your development environment...''),
               ConsoleLog ''okteto is starting'',
               SetTimeout 1000,
               OktetoGetState ''dev'' ''app'',
               ProgressReport None,
               ConsoleLog ''okteto is failed'']\<rparr>,
           Inr \<lparr>result = False, message = ''crash loop''\<rparr>)"
  by (simp add: run_defs poll_loop.simps)

lemma example_throw:
  "waitForUp (example_env [poll ''starting'' '''', Inl ''connection refused''] None) ''dev'' ''app'' =
     Some (Inl ''connection refused'',
       [WithProgress None True,
        ProgressReport (Some ''Launching your development environment...''),
        OktetoGetState ''dev'' ''app'',
        ProgressReport (Some ''Starting your development environment...''),
        ConsoleLog ''okteto is starting'',
        SetTimeout 1000,
        OktetoGetState ''dev'' ''app''])"
  by (simp add: waitForUp_def run_defs poll_loop.simps)

lemmas command_defs = upCommand_def up_manifest_def up_container_def waitForUp_def
  showManifestPicker_def pick_def truthy_def string_of_def onOktetoFailed_def finalizeUp_def
  example_env_def Let_def

lemma example_up_bad_manifest:
  "upCommand ((example_env [] None)\<lparr>manifest_getManifest := (\<lambda>p. Inl ''bad indentation'')\<rparr>)
     None None None =
   Some (None,
     [FindFiles ''**/okteto.{yml,yaml}'' (Some ''**/node_modules/**''),
      ShowQuickPick [''/home/dev/shop/okteto.yml''],
      Track ManifestSelected,
      ConsoleLog ''manifest selected: /home/dev/shop/okteto.yml'',
      GetManifest ''/home/dev/shop/okteto.yml'',
      Track ManifestLoadFailed,
      CaptureError ''load manifest failed: bad indentation'',
      ShowErrorMessage ''Okteto: Up failed to load your Okteto manifest: bad indentation'',
      ShowTerminal])"
  by (simp add: command_defs)

lemma example_up_ready:
  "upCommand (example_env [poll ''ready'' ''''] None) None None None =
   Some (Some ''/home/dev/shop/okteto.yml'',
     [FindFiles ''**/okteto.{yml,yaml}'' (Some ''**/node_modules/**''),
      ShowQuickPick [''/home/dev/shop/okteto.yml''],
      Track ManifestSelected,
      ConsoleLog ''manifest selected: /home/dev/shop/okteto.yml'',
      GetManifest ''/home/dev/shop/okteto.yml'',
      OktetoUp ''/home/dev/shop/okteto.yml'' ''dev'' ''app'' ''/home/dev/.kube/config'',
      WithProgress None True,
      ProgressReport (Some ''Launching your development environment...''),
      OktetoGetState ''dev'' ''app'',
      ProgressReport (Some ''Your development environment is ready...''),
      ConsoleLog ''okteto is ready'',
      Track UpReady, Track UpFinished, OktetoNotifyIfFailed ''dev'' ''app'',
      ShowInformationMessage ''Your development container is ready!''])"
  by (simp add: command_defs waitForFinalState_def loop_body_def observe_def emit_def
        timeout_def sleep_def onCancellationRequested_def poll_def poll_loop.simps)

lemma example_down_fails:
  "downCommand ((example_env [] None)\<lparr>okteto_down := (\<lambda>p n c. Inl ''timed out'')\<rparr>)
     (Some ''/home/dev/shop/okteto.yml'') =
   (Some ''/home/dev/shop/okteto.yml'',
    [Track Down,
     GetManifest ''/home/dev/shop/okteto.yml'',
     OktetoDown ''/home/dev/shop/okteto.yml'' ''dev'' ''/home/dev/.kube/config'',
     Track OktetoDownFailed,
     CaptureError ''okteto down failed: timed out'',
     ShowErrorMessage ''Okteto: Down failed: timed out''])"
  by (simp add: downCommand_def down_manifest_def down_container_def getManifestOrAsk_def
        truthy_def string_of_def example_env_def Let_def)

section \<open>What the polling loop does\<close>

text \<open>
  C2. If none of the first 300 answers of \<open>okteto.getState\<close> has the ready or the failed
  tag (and none is a throw), the loop asks exactly 300 times, sleeps 299 times, each time
  with the timer at 1000 ms, and returns \<open>{result: false, message: "task didn't finish in
  5 minutes"}\<close>. The counter then stands at 300, the number of ticks: it starts at 0
  with the call and is never set back inside the loop.
\<close>

theorem timeout_after_300_ticks:
  assumes "\<forall>i<300. pending e namespace name i"
  shows "\<exists>s'. waitForFinalState e (onCancellationRequested e) namespace name =
                 Some (s', Inr \<lparr>result = False, message = ''task didn't finish in 5 minutes''\<rparr>)
           \<and> counter s' = 300
           \<and> length (filter is_query (trace s')) = 300
           \<and> count_list (trace s') (SetTimeout 1000) = 299"
proof -
  from waitForFinalState_run[of e namespace name] obtain s' r
    where w: "waitForFinalState e (onCancellationRequested e) namespace name = Some (s', r)"
      and ok: "run_ok e namespace name 0 s' r"
      and nq: "length (filter is_query (trace s')) = queries s'"
      and sl: "Suc (count_list (trace s') (SetTimeout 1000)) = queries s'"
    by blast
  have "0 < queries s'" and "queries s' \<le> 300"
    using ok by (simp_all add: run_ok_def timeout_def)
  then have "queries s' - 1 < 300"
    by arith
  then have p: "pending e namespace name (queries s' - 1)"
    using assms by blast
  then have q: "queries s' = 300" and c: "counter s' = 300"
    using ok by (simp_all add: run_ok_def timeout_def)
  have "r = Inr \<lparr>result = False, message = ''task didn't finish in 5 minutes''\<rparr>"
    using ok p by (auto simp add: run_ok_def verdict_def pending_def split: sum.splits)
  then show ?thesis
    using w q c nq sl by simp
qed

theorem timeout_after_300_ticks_witness:
  "\<exists>s'. waitForFinalState (example_env [] None) (onCancellationRequested (example_env [] None))
          ''dev'' ''app'' =
            Some (s', Inr \<lparr>result = False, message = ''task didn't finish in 5 minutes''\<rparr>)
      \<and> counter s' = 300
      \<and> length (filter is_query (trace s')) = 300
      \<and> count_list (trace s') (SetTimeout 1000) = 299"
proof -
  have "\<forall>i<300. pending (example_env [] None) ''dev'' ''app'' i"
    by (simp add: pending_def example_env_simps)
  then show ?thesis
    by (rule timeout_after_300_ticks)
qed

text \<open>
  C4. In every run, if an answer that the loop asks for has the ready tag, that query is
  the last one and the loop returns \<open>{result: true, message: ''}\<close>. (Answer \<open>k\<close>,
  counted from 0, is the answer of tick \<open>k + 1\<close>.)
\<close>

theorem ready_ends_polling:
  "\<exists>s' r. waitForFinalState e (onCancellationRequested e) namespace name = Some (s', r)
     \<and> (\<forall>k res. k < length (filter is_query (trace s'))
                \<and> okteto_getState e namespace name k = Inr res
                \<and> res_state res = okteto_state_ready e
            \<longrightarrow> length (filter is_query (trace s')) = Suc k
                \<and> r = Inr \<lparr>result = True, message = ''''\<rparr>)"
proof -
  from waitForFinalState_run[of e namespace name] obtain s' r
    where w: "waitForFinalState e (onCancellationRequested e) namespace name = Some (s', r)"
      and ok: "run_ok e namespace name 0 s' r"
      and nq: "length (filter is_query (trace s')) = queries s'"
    by blast
  have "queries s' = Suc k \<and> r = Inr \<lparr>result = True, message = ''''\<rparr>"
    if "k < queries s'" "okteto_getState e namespace name k = Inr res"
      "res_state res = okteto_state_ready e" for k res
    using run_ok_last[OF ok that(1)] that(2,3) by (simp add: pending_def verdict_def)
  then show ?thesis
    using w nq by auto
qed

theorem ready_ends_polling_witness:
  "\<exists>s'. waitForFinalState
          (example_env [poll ''starting'' '''', poll ''starting'' '''', poll ''activating'' '''',
                        poll ''ready'' ''''] None)
          (onCancellationRequested
            (example_env [poll ''starting'' '''', poll ''starting'' '''', poll ''activating'' '''',
                          poll ''ready'' ''''] None)) ''dev'' ''app'' =
            Some (s', Inr \<lparr>result = True, message = ''''\<rparr>)
      \<and> length (filter is_query (trace s')) = 4"
  using ready_ends_polling
    [of "example_env [poll ''starting'' '''', poll ''starting'' '''', poll ''activating'' '''',
                      poll ''ready'' ''''] None" "''dev''" "''app''"]
  by (simp add: example_ready is_query_def)

text \<open>
  C5. In every run, if an answer that the loop asks for has the failed tag and the message
  \<open>m\<close>, that query is the last one and the loop returns \<open>{result: false, message: m}\<close>.
  The tags \<open>okteto.state.ready\<close> and \<open>okteto.state.failed\<close> are taken to differ.
\<close>

theorem failed_ends_polling:
  assumes "okteto_state_ready e \<noteq> okteto_state_failed e"
  shows "\<exists>s' r. waitForFinalState e (onCancellationRequested e) namespace name = Some (s', r)
     \<and> (\<forall>k res. k < length (filter is_query (trace s'))
                \<and> okteto_getState e namespace name k = Inr res
                \<and> res_state res = okteto_state_failed e
            \<longrightarrow> length (filter is_query (trace s')) = Suc k
                \<and> r = Inr \<lparr>result = False, message = res_message res\<rparr>)"
proof -
  from waitForFinalState_run[of e namespace name] obtain s' r
    where w: "waitForFinalState e (onCancellationRequested e) namespace name = Some (s', r)"
      and ok: "run_ok e namespace name 0 s' r"
      and nq: "length (filter is_query (trace s')) = queries s'"
    by blast
  have "queries s' = Suc k \<and> r = Inr \<lparr>result = False, message = res_message res\<rparr>"
    if "k < queries s'" "okteto_getState e namespace name k = Inr res"
      "res_state res = okteto_state_failed e" for k res
    using run_ok_last[OF ok that(1)] that(2,3) assms by (simp add: pending_def verdict_def)
  then show ?thesis
    using w nq by auto
qed

theorem failed_ends_polling_witness:
  "\<exists>s'. waitForFinalState
          (example_env [poll ''starting'' '''', poll ''failed'' ''crash loop''] None)
          (onCancellationRequested
            (example_env [poll ''starting'' '''', poll ''failed'' ''crash loop''] None))
          ''dev'' ''app'' =
            Some (s', Inr \<lparr>result = False, message = ''crash loop''\<rparr>)
      \<and> length (filter is_query (trace s')) = 2"
  using failed_ends_polling
    [of "example_env [poll ''starting'' '''', poll ''failed'' ''crash loop''] None"
        "''dev''" "''app''"]
  by (simp add: example_failed example_env_simps is_query_def)


text \<open>
  C3. In every run the progress reports are the first one (\<open>Launching your development
  environment...\<close>) and then one for each tag among the answers the loop asked for, at
  the first occurrence of the tag and in that order; the log lines \<open>okteto is <tag>\<close>
  likewise. No tag occurs twice among them, and every tag of an answer occurs.
\<close>

theorem progress_once_per_tag:
  "\<exists>s' r first.
      waitForFinalState e (onCancellationRequested e) namespace name = Some (s', r)
      \<and> first = fresh {} (tags e namespace name 0 (length (filter is_query (trace s'))))
      \<and> reports (trace s') =
           Some ''Launching your development environment...'' #
           map (okteto_getStateMessages e) first
      \<and> logs (trace s') = map (\<lambda>tag. ''okteto is '' @ tag) first
      \<and> distinct first
      \<and> set first = set (tags e namespace name 0 (length (filter is_query (trace s'))))"
proof -
  from waitForFinalState_run[of e namespace name] obtain s' r
    where "waitForFinalState e (onCancellationRequested e) namespace name = Some (s', r)"
      and "length (filter is_query (trace s')) = queries s'"
      and "reports (trace s') =
         Some ''Launching your development environment...'' #
         map (okteto_getStateMessages e) (fresh {} (tags e namespace name 0 (queries s')))"
      and "logs (trace s') =
         map (\<lambda>x. ''okteto is '' @ x) (fresh {} (tags e namespace name 0 (queries s')))"
    by blast
  then show ?thesis
    by (simp add: distinct_fresh set_fresh)
qed

theorem progress_once_per_tag_witness:
  "\<exists>s'. waitForFinalState
          (example_env [poll ''starting'' '''', poll ''starting'' '''', poll ''activating'' '''',
                        poll ''ready'' ''''] None)
          (onCancellationRequested
            (example_env [poll ''starting'' '''', poll ''starting'' '''', poll ''activating'' '''',
                          poll ''ready'' ''''] None)) ''dev'' ''app'' =
            Some (s', Inr \<lparr>result = True, message = ''''\<rparr>)
      \<and> reports (trace s') =
          [Some ''Launching your development environment...'',
           Some ''Starting your development environment...'',
           Some ''Activating your development environment...'',
           Some ''Your development environment is ready...'']
      \<and> logs (trace s') = [''okteto is starting'', ''okteto is activating'', ''okteto is ready'']"
  using progress_once_per_tag
    [of "example_env [poll ''starting'' '''', poll ''starting'' '''', poll ''activating'' '''',
                      poll ''ready'' ''''] None" "''dev''" "''app''"]
  by (simp add: example_ready reports_def logs_def)


text \<open>
  C6, as the code has it. The loop has no \<open>try\<close> around \<open>okteto.getState\<close>: when a
  query that the loop makes throws, that query is the last one and \<open>waitForUp\<close> rejects
  with the thrown error. Nothing is retried.
\<close>

theorem query_failure_ends_attempt:
  "\<exists>r t. waitForUp e namespace name = Some (r, t)
     \<and> (\<forall>k err. k < length (filter is_query t)
                \<and> okteto_getState e namespace name k = Inl err
            \<longrightarrow> length (filter is_query t) = Suc k \<and> r = Inl err)"
proof -
  from waitForFinalState_run[of e namespace name] obtain s' r
    where w: "waitForFinalState e (onCancellationRequested e) namespace name = Some (s', r)"
      and ok: "run_ok e namespace name 0 s' r"
      and nq: "length (filter is_query (trace s')) = queries s'"
    by blast
  define u where "u = (case r of Inl err \<Rightarrow> []
               | Inr res \<Rightarrow> if result res then []
                            else [Track OktetoUpFailed, ConsoleError (message res)])"
  define r' where "r' = (case r of Inl err \<Rightarrow> Inl err
            | Inr res \<Rightarrow> if result res then Inr ()
                         else Inl (''Okteto: Up command failed: '' @ message res))"
  define t where "t = WithProgress None True # trace s' @ u"
  have up: "waitForUp e namespace name = Some (r', t)"
    using w by (simp add: waitForUp_trace u_def r'_def t_def)
  have "filter is_query u = []"
    by (simp add: u_def is_query_def split: sum.splits)
  then have n: "length (filter is_query t) = queries s'"
    using nq by (simp add: t_def is_query_def)
  have "length (filter is_query t) = Suc k \<and> r' = Inl err"
    if "k < length (filter is_query t)" "okteto_getState e namespace name k = Inl err" for k err
    using run_ok_last[OF ok, of k] that unfolding n
    by (simp add: pending_def verdict_def r'_def)
  then have "\<forall>k err. k < length (filter is_query t)
                \<and> okteto_getState e namespace name k = Inl err
            \<longrightarrow> length (filter is_query t) = Suc k \<and> r' = Inl err"
    by blast
  with up show ?thesis
    by (intro exI[of _ r'] exI[of _ t] conjI)
qed

theorem query_failure_ends_attempt_witness:
  "\<exists>t. waitForUp (example_env [poll ''starting'' '''', Inl ''connection refused''] None)
          ''dev'' ''app'' = Some (Inl ''connection refused'', t)
      \<and> length (filter is_query t) = 2"
proof -
  let ?e = "example_env [poll ''starting'' '''', Inl ''connection refused''] None"
  from query_failure_ends_attempt[of ?e "''dev''" "''app''"] obtain r t
    where 1: "waitForUp ?e ''dev'' ''app'' = Some (r, t)"
      and 2: "\<And>k err. k < length (filter is_query t) \<Longrightarrow>
                okteto_getState ?e ''dev'' ''app'' k = Inl err \<Longrightarrow>
                length (filter is_query t) = Suc k \<and> r = Inl err"
    by blast
  from 1 have "1 < length (filter is_query t)"
    unfolding example_throw by (auto simp add: is_query_def)
  moreover have "okteto_getState ?e ''dev'' ''app'' 1 = Inl ''connection refused''"
    by (simp add: example_env_simps)
  ultimately have "length (filter is_query t) = Suc 1 \<and> r = Inl ''connection refused''"
    by (rule 2)
  then show ?thesis
    using 1 by simp
qed

text \<open>
  C6 as it is stated fails: the first query throws, the second would answer ready. The
  loop makes the one query, logs nothing and asks no second time; the attempt ends with
  the thrown error.
\<close>

theorem query_failure_not_retried:
  "waitForUp (example_env [Inl ''connection refused'', poll ''ready'' ''''] None) ''dev'' ''app'' =
     Some (Inl ''connection refused'',
       [WithProgress None True,
        ProgressReport (Some ''Launching your development environment...''),
        OktetoGetState ''dev'' ''app''])"
  by (simp add: waitForUp_def run_defs poll_loop.simps)

text \<open>
  C1, as the code has it. The loop never looks at the cancellation token. When the user
  cancels during the sleep after tick \<open>k\<close>, the handler dispatches the command
  \<open>okteto.down\<close> once, and the loop goes on: but for the handler's two events the
  attempt has the trace and the outcome of the attempt that nobody cancels.
\<close>

theorem cancellation_dispatches_down:
  assumes "cancellationRequested e = Some k"
  shows "\<exists>r t. waitForUp e namespace name = Some (r, t)
     \<and> waitForUp (e\<lparr>cancellationRequested := None\<rparr>) namespace name =
         Some (r, filter (\<lambda>ev. \<not> of_handler ev) t)
     \<and> count_list t (ExecuteCommand ''okteto.down'') =
         (if 0 < k \<and> k < length (filter is_query t) then 1 else 0)"
proof -
  from waitForFinalState_run[of e namespace name] obtain s' r
    where w: "waitForFinalState e (onCancellationRequested e) namespace name = Some (s', r)"
      and nq: "length (filter is_query (trace s')) = queries s'"
      and cnt: "count_list (trace s') (ExecuteCommand ''okteto.down'') =
         (case cancellationRequested e of
            None \<Rightarrow> 0
          | Some k \<Rightarrow> if 0 < k \<and> k < queries s' then 1 else 0)"
      and wo: "waitForFinalState e (\<lambda>k. []) namespace name = Some (without_handler s', r)"
    by blast
  define u where "u = (case r of Inl err \<Rightarrow> []
               | Inr res \<Rightarrow> if result res then []
                            else [Track OktetoUpFailed, ConsoleError (message res)])"
  define r' where "r' = (case r of Inl err \<Rightarrow> Inl err
            | Inr res \<Rightarrow> if result res then Inr ()
                         else Inl (''Okteto: Up command failed: '' @ message res))"
  define t where "t = WithProgress None True # trace s' @ u"
  have up: "waitForUp e namespace name = Some (r', t)"
    using w by (simp add: waitForUp_trace u_def r'_def t_def)
  have u: "filter is_query u = []" "filter (\<lambda>ev. \<not> of_handler ev) u = u"
    "count_list u (ExecuteCommand ''okteto.down'') = 0"
    by (simp_all add: u_def is_query_def of_handler_def split: sum.splits)
  have n: "length (filter is_query t) = queries s'"
    using nq u(1) by (simp add: t_def is_query_def)
  have c: "count_list t (ExecuteCommand ''okteto.down'') =
             (if 0 < k \<and> k < length (filter is_query t) then 1 else 0)"
    unfolding n using cnt assms u(3) by (simp add: t_def)
  have f: "filter (\<lambda>ev. \<not> of_handler ev) t =
             WithProgress None True # trace (without_handler s') @ u"
    using u(2) by (simp add: t_def without_handler_simps of_handler_def)
  have "waitForUp (e\<lparr>cancellationRequested := None\<rparr>) namespace name =
          Some (r', filter (\<lambda>ev. \<not> of_handler ev) t)"
    unfolding f using waitForFinalState_not_cancelled[OF wo]
    by (simp add: waitForUp_trace u_def r'_def)
  then show ?thesis
    using up c by blast
qed

theorem cancellation_dispatches_down_witness:
  "\<exists>t. waitForUp (example_env [poll ''starting'' '''', poll ''ready'' ''''] (Some 1))
          ''dev'' ''app'' = Some (Inr (), t)
      \<and> waitForUp ((example_env [poll ''starting'' '''', poll ''ready'' ''''] (Some 1))
                     \<lparr>cancellationRequested := None\<rparr>) ''dev'' ''app'' =
          Some (Inr (), filter (\<lambda>ev. \<not> of_handler ev) t)
      \<and> count_list t (ExecuteCommand ''okteto.down'') = 1"
proof -
  let ?e = "example_env [poll ''starting'' '''', poll ''ready'' ''''] (Some 1)"
  have "cancellationRequested ?e = Some 1"
    by (simp add: example_env_simps)
  from cancellation_dispatches_down[OF this, of "''dev''" "''app''"] obtain r t
    where 1: "waitForUp ?e ''dev'' ''app'' = Some (r, t)"
      and 2: "waitForUp (?e\<lparr>cancellationRequested := None\<rparr>) ''dev'' ''app'' =
                Some (r, filter (\<lambda>ev. \<not> of_handler ev) t)"
      and 3: "count_list t (ExecuteCommand ''okteto.down'') =
                (if 0 < (1::nat) \<and> 1 < length (filter is_query t) then 1 else 0)"
    by blast
  from 1 have r: "r = Inr ()" and "length (filter is_query t) = 2"
    unfolding example_cancelled by (auto simp add: is_query_def)
  then have "count_list t (ExecuteCommand ''okteto.down'') = 1"
    using 3 by simp
  then show ?thesis
    using 1 2 r by blast
qed

text \<open>
  C1 as it is stated fails: the user cancels between the first tick and the second. The
  loop asks a second time after the handler has run, and the attempt ends as a ready one,
  not as a cancelled one.
\<close>

theorem cancellation_does_not_stop_polling:
  "waitForUp (example_env [poll ''starting'' '''', poll ''ready'' ''''] (Some 1)) ''dev'' ''app'' =
     Some (Inr (),
       [WithProgress None True,
        ProgressReport (Some ''Launching your development environment...''),
        OktetoGetState ''dev'' ''app'',
        ProgressReport (Some ''Starting your development environment...''),
        ConsoleLog ''okteto is starting'',
        SetTimeout 1000,
        Track UpCancelled, ExecuteCommand ''okteto.down'',
        OktetoGetState ''dev'' ''app'',
        ProgressReport (Some ''Your development environment is ready...''),
        ConsoleLog ''okteto is ready''])"
  by (simp add: waitForUp_def run_defs poll_loop.simps)


section \<open>What the commands do\<close>

text \<open>
  C7. When \<open>upCommand\<close> has loaded a manifest whose namespace is unset (\<open>undefined\<close> or
  the empty string: whatever \<open>!m.namespace\<close> holds of) and the cluster context reader
  returns a namespace \<open>n\<close>, \<open>okteto.up\<close> is called once, with \<open>n\<close> and the name of the
  manifest; when the reader returns nothing (\<open>!ns\<close> holds), the error message is the last
  thing the command does and \<open>okteto.up\<close> is not called.
\<close>

theorem namespace_from_cluster_context:
  "\<exists>am' t. upCommand e activeManifest repository path = Some (am', t)
     \<and> (\<forall>p m. GetManifest p \<in> set t \<and> manifest_getManifest e p = Inr m
               \<and> \<not> truthy (manifest_namespace m) \<longrightarrow>
          (\<forall>n. kubernetes_getCurrentNamespace e (kubernetes_getKubeconfig e) = Some n \<and> n \<noteq> []
             \<longrightarrow> filter is_up t =
                   [OktetoUp p n (manifest_name m) (kubernetes_getKubeconfig e)])
          \<and> (\<not> truthy (kubernetes_getCurrentNamespace e (kubernetes_getKubeconfig e))
             \<longrightarrow> filter is_up t = [] \<and> am' = activeManifest
                 \<and> last t = ShowErrorMessage
                              ''Couldn't detect your current Kubernetes context.''))"
proof -
  let ?cur = "kubernetes_getCurrentNamespace e (kubernetes_getKubeconfig e)"
  from upCommand_shape[of e activeManifest repository path] obtain am' t
    where up: "upCommand e activeManifest repository path = Some (am', t)"
      and sh: "(am' = activeManifest \<and> quiet t)
        \<or> (\<exists>t0 p tw. quiet t0 \<and> filter is_load tw = []
             \<and> t = t0 @ [Track ManifestSelected, ConsoleLog (''manifest selected: '' @ p),
                         GetManifest p] @ tw
             \<and> (case manifest_getManifest e p of
                  Inl err \<Rightarrow>
                    am' = activeManifest \<and>
                    tw = [Track ManifestLoadFailed, CaptureError (''load manifest failed: '' @ err),
                          ShowErrorMessage
                            (''Okteto: Up failed to load your Okteto manifest: '' @ err),
                          ShowTerminal]
                | Inr m \<Rightarrow>
                    (let ns = (if truthy (manifest_namespace m) then manifest_namespace m
                               else ?cur)
                     in if truthy ns
                        then am' = Some p \<and>
                             (\<exists>tw'. quiet tw' \<and>
                                tw = OktetoUp p (string_of ns) (manifest_name m)
                                       (kubernetes_getKubeconfig e) # tw')
                        else am' = activeManifest \<and>
                             tw = [ShowErrorMessage
                                     ''Couldn't detect your current Kubernetes context.''])))"
    by blast
  have "(\<forall>n. ?cur = Some n \<and> n \<noteq> []
             \<longrightarrow> filter is_up t =
                   [OktetoUp p n (manifest_name m) (kubernetes_getKubeconfig e)])
          \<and> (\<not> truthy ?cur
             \<longrightarrow> filter is_up t = [] \<and> am' = activeManifest
                 \<and> last t = ShowErrorMessage
                              ''Couldn't detect your current Kubernetes context.'')"
    if g: "GetManifest p \<in> set t" and l: "manifest_getManifest e p = Inr m"
      and u: "\<not> truthy (manifest_namespace m)" for p m
    using sh
  proof (elim disjE exE conjE)
    assume "quiet t"
    then show ?thesis
      using g quiet_no_load by blast
  next
    fix t0 p0 tw
    assume q: "quiet t0" and f: "filter is_load tw = []"
      and t: "t = t0 @ [Track ManifestSelected, ConsoleLog (''manifest selected: '' @ p0),
                         GetManifest p0] @ tw"
      and c: "case manifest_getManifest e p0 of
                  Inl err \<Rightarrow>
                    am' = activeManifest \<and>
                    tw = [Track ManifestLoadFailed, CaptureError (''load manifest failed: '' @ err),
                          ShowErrorMessage
                            (''Okteto: Up failed to load your Okteto manifest: '' @ err),
                          ShowTerminal]
                | Inr m \<Rightarrow>
                    (let ns = (if truthy (manifest_namespace m) then manifest_namespace m
                               else ?cur)
                     in if truthy ns
                        then am' = Some p0 \<and>
                             (\<exists>tw'. quiet tw' \<and>
                                tw = OktetoUp p0 (string_of ns) (manifest_name m)
                                       (kubernetes_getKubeconfig e) # tw')
                        else am' = activeManifest \<and>
                             tw = [ShowErrorMessage
                                     ''Couldn't detect your current Kubernetes context.''])"
    have p: "p = p0"
      using g quiet_no_load[OF q, of p] no_load[OF f, of p] unfolding t by simp
    have c': "if truthy ?cur
              then am' = Some p \<and>
                   (\<exists>tw'. quiet tw' \<and>
                      tw = OktetoUp p (string_of ?cur) (manifest_name m)
                             (kubernetes_getKubeconfig e) # tw')
              else am' = activeManifest \<and>
                   tw = [ShowErrorMessage ''Couldn't detect your current Kubernetes context.'']"
      using c l u unfolding p[symmetric] by (simp add: Let_def)
    show ?thesis
    proof (cases "truthy ?cur")
      case True
      with c' obtain tw' where tw': "quiet tw'"
        "tw = OktetoUp p (string_of ?cur) (manifest_name m) (kubernetes_getKubeconfig e) # tw'"
        by auto
      have "filter is_up t =
              [OktetoUp p (string_of ?cur) (manifest_name m) (kubernetes_getKubeconfig e)]"
        using quiet_filter[OF q] quiet_filter[OF tw'(1)] unfolding t tw'(2)
        by (simp add: kind_defs)
      then show ?thesis
        using True by (auto simp add: string_of_def)
    next
      case False
      with c' have "am' = activeManifest"
        and tw: "tw = [ShowErrorMessage ''Couldn't detect your current Kubernetes context.'']"
        by simp_all
      moreover have "filter is_up t = []"
        using quiet_filter[OF q] unfolding t tw by (simp add: kind_defs)
      moreover have "last t = ShowErrorMessage ''Couldn't detect your current Kubernetes context.''"
        unfolding t tw by simp
      ultimately show ?thesis
        using False by (auto simp add: truthy_def)
    qed
  qed
  with up show ?thesis
    by blast
qed

theorem namespace_from_cluster_context_witness:
  "\<exists>t. upCommand (example_env [poll ''ready'' ''''] None) None None None =
          Some (Some ''/home/dev/shop/okteto.yml'', t)
      \<and> filter is_up t =
          [OktetoUp ''/home/dev/shop/okteto.yml'' ''dev'' ''app'' ''/home/dev/.kube/config'']"
proof -
  let ?e = "example_env [poll ''ready'' ''''] None"
  from namespace_from_cluster_context[of ?e None None None] obtain am' t
    where 1: "upCommand ?e None None None = Some (am', t)"
      and 2: "\<And>p m n. GetManifest p \<in> set t \<Longrightarrow> manifest_getManifest ?e p = Inr m \<Longrightarrow>
                \<not> truthy (manifest_namespace m) \<Longrightarrow>
                kubernetes_getCurrentNamespace ?e (kubernetes_getKubeconfig ?e) = Some n \<Longrightarrow>
                n \<noteq> [] \<Longrightarrow>
                filter is_up t = [OktetoUp p n (manifest_name m) (kubernetes_getKubeconfig ?e)]"
    by blast
  from 1 have am: "am' = Some ''/home/dev/shop/okteto.yml''"
    unfolding example_up_ready by auto
  from 1 have "GetManifest ''/home/dev/shop/okteto.yml'' \<in> set t"
    unfolding example_up_ready by auto
  moreover have "manifest_getManifest ?e ''/home/dev/shop/okteto.yml'' =
                   Inr \<lparr>manifest_name = ''app'', manifest_namespace = None\<rparr>"
    and "\<not> truthy (manifest_namespace \<lparr>manifest_name = ''app'', manifest_namespace = None\<rparr>)"
    and "kubernetes_getCurrentNamespace ?e (kubernetes_getKubeconfig ?e) = Some ''dev''"
    and "''dev'' \<noteq> []"
    by (simp_all add: example_env_def truthy_def)
  ultimately have "filter is_up t =
      [OktetoUp ''/home/dev/shop/okteto.yml'' ''dev''
         (manifest_name \<lparr>manifest_name = ''app'', manifest_namespace = None\<rparr>)
         (kubernetes_getKubeconfig ?e)]"
    by (rule 2)
  then show ?thesis
    using 1 am by (simp add: example_env_def)
qed

text \<open>
  C8. When the load of the selected manifest throws, \<open>upCommand\<close> tracks and captures the
  failure, shows \<open>Okteto: Up failed to load your Okteto manifest: ...\<close> and the terminal,
  and ends there: \<open>okteto.up\<close> is not called in that run, and \<open>activeManifest\<close> keeps
  its value.
\<close>

theorem manifest_load_failure_never_launches:
  "\<exists>am' t. upCommand e activeManifest repository path = Some (am', t)
     \<and> (\<forall>p err. GetManifest p \<in> set t \<and> manifest_getManifest e p = Inl err \<longrightarrow>
          filter is_up t = [] \<and> am' = activeManifest
          \<and> (\<exists>t0. t = t0 @
                [GetManifest p, Track ManifestLoadFailed,
                 CaptureError (''load manifest failed: '' @ err),
                 ShowErrorMessage (''Okteto: Up failed to load your Okteto manifest: '' @ err),
                 ShowTerminal]))"
proof -
  from upCommand_shape[of e activeManifest repository path] obtain am' t
    where up: "upCommand e activeManifest repository path = Some (am', t)"
      and sh: "(am' = activeManifest \<and> quiet t)
        \<or> (\<exists>t0 p tw. quiet t0 \<and> filter is_load tw = []
             \<and> t = t0 @ [Track ManifestSelected, ConsoleLog (''manifest selected: '' @ p),
                         GetManifest p] @ tw
             \<and> (case manifest_getManifest e p of
                  Inl err \<Rightarrow>
                    am' = activeManifest \<and>
                    tw = [Track ManifestLoadFailed, CaptureError (''load manifest failed: '' @ err),
                          ShowErrorMessage
                            (''Okteto: Up failed to load your Okteto manifest: '' @ err),
                          ShowTerminal]
                | Inr m \<Rightarrow>
                    (let ns = (if truthy (manifest_namespace m) then manifest_namespace m
                               else kubernetes_getCurrentNamespace e (kubernetes_getKubeconfig e))
                     in if truthy ns
                        then am' = Some p \<and>
                             (\<exists>tw'. quiet tw' \<and>
                                tw = OktetoUp p (string_of ns) (manifest_name m)
                                       (kubernetes_getKubeconfig e) # tw')
                        else am' = activeManifest \<and>
                             tw = [ShowErrorMessage
                                     ''Couldn't detect your current Kubernetes context.''])))"
    by blast
  have "filter is_up t = [] \<and> am' = activeManifest
          \<and> (\<exists>t0. t = t0 @
                [GetManifest p, Track ManifestLoadFailed,
                 CaptureError (''load manifest failed: '' @ err),
                 ShowErrorMessage (''Okteto: Up failed to load your Okteto manifest: '' @ err),
                 ShowTerminal])"
    if g: "GetManifest p \<in> set t" and l: "manifest_getManifest e p = Inl err" for p err
    using sh
  proof (elim disjE exE conjE)
    assume "quiet t"
    then show ?thesis
      using g quiet_no_load by blast
  next
    fix t0 p0 tw
    assume q: "quiet t0" and f: "filter is_load tw = []"
      and t: "t = t0 @ [Track ManifestSelected, ConsoleLog (''manifest selected: '' @ p0),
                         GetManifest p0] @ tw"
      and c: "case manifest_getManifest e p0 of
                  Inl err \<Rightarrow>
                    am' = activeManifest \<and>
                    tw = [Track ManifestLoadFailed, CaptureError (''load manifest failed: '' @ err),
                          ShowErrorMessage
                            (''Okteto: Up failed to load your Okteto manifest: '' @ err),
                          ShowTerminal]
                | Inr m \<Rightarrow>
                    (let ns = (if truthy (manifest_namespace m) then manifest_namespace m
                               else kubernetes_getCurrentNamespace e (kubernetes_getKubeconfig e))
                     in if truthy ns
                        then am' = Some p0 \<and>
                             (\<exists>tw'. quiet tw' \<and>
                                tw = OktetoUp p0 (string_of ns) (manifest_name m)
                                       (kubernetes_getKubeconfig e) # tw')
                        else am' = activeManifest \<and>
                             tw = [ShowErrorMessage
                                     ''Couldn't detect your current Kubernetes context.''])"
    have p: "p = p0"
      using g quiet_no_load[OF q, of p] no_load[OF f, of p] unfolding t by simp
    have "am' = activeManifest"
      and tw: "tw = [Track ManifestLoadFailed, CaptureError (''load manifest failed: '' @ err),
                     ShowErrorMessage (''Okteto: Up failed to load your Okteto manifest: '' @ err),
                     ShowTerminal]"
      using c l unfolding p by simp_all
    moreover have "filter is_up t = []"
      using quiet_filter[OF q] unfolding t tw by (simp add: kind_defs)
    moreover have "t = (t0 @ [Track ManifestSelected, ConsoleLog (''manifest selected: '' @ p0)]) @
                [GetManifest p, Track ManifestLoadFailed,
                 CaptureError (''load manifest failed: '' @ err),
                 ShowErrorMessage (''Okteto: Up failed to load your Okteto manifest: '' @ err),
                 ShowTerminal]"
      unfolding t tw p by simp
    ultimately show ?thesis
      by blast
  qed
  with up show ?thesis
    by blast
qed

theorem manifest_load_failure_never_launches_witness:
  "\<exists>t. upCommand
          ((example_env [] None)\<lparr>manifest_getManifest := (\<lambda>p. Inl ''bad indentation'')\<rparr>)
          None None None = Some (None, t)
      \<and> filter is_up t = []
      \<and> last t = ShowTerminal"
proof -
  let ?e = "(example_env [] None)\<lparr>manifest_getManifest := (\<lambda>p. Inl ''bad indentation'')\<rparr>"
  from manifest_load_failure_never_launches[of ?e None None None] obtain am' t
    where 1: "upCommand ?e None None None = Some (am', t)"
      and 2: "\<And>p err. GetManifest p \<in> set t \<Longrightarrow> manifest_getManifest ?e p = Inl err \<Longrightarrow>
          filter is_up t = [] \<and> am' = None
          \<and> (\<exists>t0. t = t0 @
                [GetManifest p, Track ManifestLoadFailed,
                 CaptureError (''load manifest failed: '' @ err),
                 ShowErrorMessage (''Okteto: Up failed to load your Okteto manifest: '' @ err),
                 ShowTerminal])"
    by blast
  from 1 have "GetManifest ''/home/dev/shop/okteto.yml'' \<in> set t"
    unfolding example_up_bad_manifest by auto
  moreover have "manifest_getManifest ?e ''/home/dev/shop/okteto.yml'' = Inl ''bad indentation''"
    by simp
  ultimately have "filter is_up t = [] \<and> am' = None
          \<and> (\<exists>t0. t = t0 @
                [GetManifest ''/home/dev/shop/okteto.yml'', Track ManifestLoadFailed,
                 CaptureError (''load manifest failed: '' @ ''bad indentation''),
                 ShowErrorMessage
                   (''Okteto: Up failed to load your Okteto manifest: '' @ ''bad indentation''),
                 ShowTerminal])"
    by (rule 2)
  then show ?thesis
    using 1 by auto
qed

text \<open>
  C9. \<open>installCmd\<close> shows its success message in every case but one: \<open>okteto.install\<close>
  throws and \<open>handleErr\<close> is false, and then \<open>installCmd\<close> rejects with \<open>Okteto was not
  installed: ...\<close>. With \<open>handleErr\<close> true and \<open>okteto.install\<close> throwing, the error
  message is shown and the success message after it.
\<close>

theorem installCmd_success_message:
  "(ShowInformationMessage
      (if upgrade then ''Okteto was successfully upgraded''
       else ''Okteto was successfully installed'')
      \<in> set (snd (installCmd e upgrade handleErr)))
     = (handleErr \<or> okteto_install e = Inr ())
   \<and> (okteto_install e = Inl err \<longrightarrow>
        installCmd e upgrade True =
          (Inr (),
           [ConsoleLog ''installing okteto'', Track Install,
            WithProgress
              (Some (if upgrade then ''Okteto is out of date, upgrading''
                     else ''Installing Okteto'')) False,
            OktetoInstall, Track OktetoInstallFailed,
            CaptureError (''okteto install failed: '' @ err),
            ShowErrorMessage (''Okteto was not installed: '' @ err),
            ShowInformationMessage
              (if upgrade then ''Okteto was successfully upgraded''
               else ''Okteto was successfully installed'')])
        \<and> fst (installCmd e upgrade False) = Inl (''Okteto was not installed: '' @ err))"
proof (cases "okteto_install e")
  case (Inl err')
  then show ?thesis
    by (cases handleErr) (simp_all add: installCmd_def install_task_cases)
next
  case (Inr u)
  then show ?thesis
    by (simp add: installCmd_def install_task_cases)
qed

theorem installCmd_success_message_witness:
  "installCmd ((example_env [] None)\<lparr>okteto_install := Inl ''no network''\<rparr>) False True =
     (Inr (),
      [ConsoleLog ''installing okteto'', Track Install,
       WithProgress (Some ''Installing Okteto'') False,
       OktetoInstall, Track OktetoInstallFailed,
       CaptureError ''okteto install failed: no network'',
       ShowErrorMessage ''Okteto was not installed: no network'',
       ShowInformationMessage ''Okteto was successfully installed''])
   \<and> fst (installCmd ((example_env [] None)\<lparr>okteto_install := Inl ''no network''\<rparr>) False False)
       = Inl ''Okteto was not installed: no network''"
  using installCmd_success_message
    [of False "(example_env [] None)\<lparr>okteto_install := Inl ''no network''\<rparr>" True
        "''no network''"]
  by simp


text \<open>
  C10, as the code has it. \<open>downCommand\<close> changes \<open>activeManifest\<close> in one place, after
  \<open>okteto.down\<close> has succeeded, and sets it to the empty string there. When
  \<open>okteto.down\<close> throws, \<open>activeManifest\<close> keeps its value. If that value is a path,
  the call was made for it and the next \<open>getManifestOrAsk\<close> returns it again, with no
  picker shown. If it is unset or empty, the path of the call came from the picker and is
  stored nowhere: the next \<open>getManifestOrAsk\<close> shows the picker again and takes its
  answer.
\<close>

theorem activeManifest_cleared_on_success_only:
  "(\<forall>p ns kc err.
       OktetoDown p ns kc \<in> set (snd (downCommand e activeManifest))
       \<and> okteto_down e p ns kc = Inl err \<longrightarrow>
         fst (downCommand e activeManifest) = activeManifest
         \<and> (truthy activeManifest \<longrightarrow>
              p = string_of activeManifest
              \<and> getManifestOrAsk e' (fst (downCommand e activeManifest)) = (activeManifest, []))
         \<and> (\<not> truthy activeManifest \<longrightarrow>
              fst (getManifestOrAsk e' (fst (downCommand e activeManifest)))
                = fst (showManifestPicker e')
              \<and> snd (getManifestOrAsk e' (fst (downCommand e activeManifest)))
                = snd (showManifestPicker e') @
                  [Track (if fst (showManifestPicker e') = None then ManifestDismissed
                          else ManifestSelected)]))
   \<and> (fst (downCommand e activeManifest) \<noteq> activeManifest \<longrightarrow>
        fst (downCommand e activeManifest) = Some ''''
        \<and> (\<exists>p ns kc. OktetoDown p ns kc \<in> set (snd (downCommand e activeManifest))
              \<and> okteto_down e p ns kc = Inr ()))"
proof -
  let ?am = "fst (downCommand e activeManifest)" and ?t = "snd (downCommand e activeManifest)"
  have ask: "getManifestOrAsk e' activeManifest = (activeManifest, [])" if "truthy activeManifest"
    using that by (simp add: getManifestOrAsk_def)
  have again: "fst (getManifestOrAsk e' activeManifest) = fst (showManifestPicker e')
      \<and> snd (getManifestOrAsk e' activeManifest)
          = snd (showManifestPicker e') @
            [Track (if fst (showManifestPicker e') = None then ManifestDismissed
                    else ManifestSelected)]"
    if "\<not> truthy activeManifest"
  proof (cases "showManifestPicker e'")
    case (Pair uri t)
    then show ?thesis
      using that by (cases uri) (simp_all add: getManifestOrAsk_def)
  qed
  have 1: "?am = activeManifest
         \<and> (truthy activeManifest \<longrightarrow>
              p = string_of activeManifest \<and> getManifestOrAsk e' ?am = (activeManifest, []))
         \<and> (\<not> truthy activeManifest \<longrightarrow>
              fst (getManifestOrAsk e' ?am) = fst (showManifestPicker e')
              \<and> snd (getManifestOrAsk e' ?am)
                = snd (showManifestPicker e') @
                  [Track (if fst (showManifestPicker e') = None then ManifestDismissed
                          else ManifestSelected)])"
    if g: "OktetoDown p ns kc \<in> set ?t" and l: "okteto_down e p ns kc = Inl err"
    for p ns kc err
    using downCommand_shape[of e activeManifest]
  proof (elim disjE exE conjE)
    assume "filter is_down ?t = []"
    then show ?thesis
      using g no_down by blast
  next
    fix t0 p0 ns0 kc0 tw
    assume q: "filter is_down t0 = []" "filter is_down tw = []"
      and p0: "truthy activeManifest \<longrightarrow> p0 = string_of activeManifest"
      and d: "downCommand e activeManifest =
            (case okteto_down e p0 ns0 kc0 of Inl err \<Rightarrow> activeManifest | Inr u \<Rightarrow> Some '''',
             t0 @ OktetoDown p0 ns0 kc0 # tw)"
    have "OktetoDown p ns kc \<in> set (t0 @ OktetoDown p0 ns0 kc0 # tw)"
      using g unfolding d by simp
    then have eq: "p = p0" "ns = ns0" "kc = kc0"
      using no_down[OF q(1), of p ns kc] no_down[OF q(2), of p ns kc] by simp_all
    have am: "?am = activeManifest"
      using l unfolding d eq by simp
    show ?thesis
      unfolding am using p0 ask again eq(1) by simp
  qed
  have 2: "?am = Some ''''
        \<and> (\<exists>p ns kc. OktetoDown p ns kc \<in> set ?t \<and> okteto_down e p ns kc = Inr ())"
    if ne: "?am \<noteq> activeManifest"
    using downCommand_shape[of e activeManifest]
  proof (elim disjE exE conjE)
    assume "?am = activeManifest"
    then show ?thesis
      using ne by simp
  next
    fix t0 p0 ns0 kc0 tw
    assume d: "downCommand e activeManifest =
            (case okteto_down e p0 ns0 kc0 of Inl err \<Rightarrow> activeManifest | Inr u \<Rightarrow> Some '''',
             t0 @ OktetoDown p0 ns0 kc0 # tw)"
    show ?thesis
    proof (cases "okteto_down e p0 ns0 kc0")
      case (Inl err)
      then show ?thesis
        using ne unfolding d by simp
    next
      case (Inr u)
      then have "?am = Some ''''" and "OktetoDown p0 ns0 kc0 \<in> set ?t"
        and "okteto_down e p0 ns0 kc0 = Inr ()"
        unfolding d by simp_all
      then show ?thesis
        by blast
    qed
  qed
  show ?thesis
    using 1 2 by blast
qed

theorem activeManifest_cleared_on_success_only_witness:
  "fst (downCommand ((example_env [] None)\<lparr>okteto_down := (\<lambda>p n c. Inl ''timed out'')\<rparr>)
          (Some ''/home/dev/shop/okteto.yml'')) = Some ''/home/dev/shop/okteto.yml''
   \<and> getManifestOrAsk (example_env [] None)
        (fst (downCommand ((example_env [] None)\<lparr>okteto_down := (\<lambda>p n c. Inl ''timed out'')\<rparr>)
               (Some ''/home/dev/shop/okteto.yml''))) = (Some ''/home/dev/shop/okteto.yml'', [])"
proof -
  let ?e = "(example_env [] None)\<lparr>okteto_down := (\<lambda>p n c. Inl ''timed out'')\<rparr>"
  let ?a = "Some ''/home/dev/shop/okteto.yml''"
  have "OktetoDown ''/home/dev/shop/okteto.yml'' ''dev'' ''/home/dev/.kube/config''
          \<in> set (snd (downCommand ?e ?a))"
    by (simp add: example_down_fails)
  moreover have "okteto_down ?e ''/home/dev/shop/okteto.yml'' ''dev'' ''/home/dev/.kube/config''
                   = Inl ''timed out''"
    by simp
  moreover have "truthy ?a"
    by (simp add: truthy_def)
  ultimately show ?thesis
    using activeManifest_cleared_on_success_only[of ?e ?a "example_env [] None"]
    by blast
qed

text \<open>
  C10 as it is stated fails: \<open>activeManifest\<close> is unset, the user picks the manifest and
  \<open>okteto.down\<close> throws. The variable is left as it was, unset, so the next
  \<open>getManifestOrAsk\<close> does not reuse the path: it shows the picker again.
\<close>

theorem failed_down_of_picked_manifest_prompts_again:
  "downCommand ((example_env [] None)\<lparr>okteto_down := (\<lambda>p n c. Inl ''timed out'')\<rparr>) None =
     (None,
      [Track Down,
       FindFiles ''**/okteto.{yml,yaml}'' (Some ''**/node_modules/**''),
       ShowQuickPick [''/home/dev/shop/okteto.yml''],
       Track ManifestSelected,
       GetManifest ''/home/dev/shop/okteto.yml'',
       OktetoDown ''/home/dev/shop/okteto.yml'' ''dev'' ''/home/dev/.kube/config'',
       Track OktetoDownFailed,
       CaptureError ''okteto down failed: timed out'',
       ShowErrorMessage ''Okteto: Down failed: timed out''])
   \<and> getManifestOrAsk ((example_env [] None)\<lparr>okteto_down := (\<lambda>p n c. Inl ''timed out'')\<rparr>)
        (fst (downCommand
               ((example_env [] None)\<lparr>okteto_down := (\<lambda>p n c. Inl ''timed out'')\<rparr>) None)) =
     (Some ''/home/dev/shop/okteto.yml'',
      [FindFiles ''**/okteto.{yml,yaml}'' (Some ''**/node_modules/**''),
       ShowQuickPick [''/home/dev/shop/okteto.yml''],
       Track ManifestSelected])"
  by (simp add: downCommand_def down_manifest_def down_container_def getManifestOrAsk_def
        showManifestPicker_def pick_def truthy_def string_of_def example_env_def Let_def)


end
